theory Spec2Isabelle
  imports Main "HOL-Library.Sublist"
begin

section \<open>Key-vault provider: data model\<close>

text \<open>
  The embedding follows \<^verbatim>\<open>pkg/keymanagementprovider/azurekeyvault/provider.go\<close> and the
  refresher registry. A Go runtime panic (slice bounds, nil dereference, explicit
  \<^verbatim>\<open>panic\<close>) is a value of its own, distinct from a returned error.
\<close>

datatype panic = SliceBoundsOutOfRange | NilPointerDereference | PanicMsg string

text \<open>
  \<^verbatim>\<open>types.KeyVaultValue\<close>: one configured object (name, optional pinned version, history
  limit). \<^verbatim>\<open>types.KeyVaultValueVersion\<close>: one entry of a version history; the creation
  time is an instant on the integer time line.
\<close>

record KeyVaultValue =
  kv_Name :: string
  kv_Version :: string
  kv_VersionHistoryLimit :: int

record KeyVaultValueVersion =
  vv_Version :: string
  vv_Created :: int
  vv_Enabled :: bool

type_synonym KeyVaultValueVersionHistory = "KeyVaultValueVersion list"

subsection \<open>Go integers and slices\<close>

text \<open>
  Go's \<^verbatim>\<open>int\<close> is taken 64 bits wide, two's complement: a subtraction or addition
  wraps around. \<open>is_int\<close> says a mathematical integer is representable.
\<close>

definition wrap_int :: "int \<Rightarrow> int" where
  "wrap_int x = (x + 2 ^ 63) mod 2 ^ 64 - 2 ^ 63"

definition is_int :: "int \<Rightarrow> bool" where
  "is_int x = (- (2 ^ 63) \<le> x \<and> x < 2 ^ 63)"

text \<open>
  The slice expression \<^verbatim>\<open>s[lo:hi]\<close>: the runtime panics unless \<open>0 \<le> lo \<le> hi\<close> and
  \<open>hi\<close> is within the slice (every \<open>hi\<close> used below is at most the length).
\<close>

datatype 'a may_panic = Panics panic | Returns 'a

definition go_slice :: "'a list \<Rightarrow> int \<Rightarrow> int \<Rightarrow> 'a list may_panic" where
  "go_slice s lo hi =
     (if 0 \<le> lo \<and> lo \<le> hi \<and> hi \<le> int (length s)
      then Returns (take (nat hi - nat lo) (drop (nat lo) s))
      else Panics SliceBoundsOutOfRange)"

subsection \<open>Version history: sorting and trimming\<close>

text \<open>
  Modelled from the spec: \<^verbatim>\<open>KeyVaultValueVersionHistory.Sort\<close> lives in the \<^verbatim>\<open>types\<close>
  package, which is not among the sources; the specification says the history is sorted
  ascending by creation time, oldest first. Entries created at the same instant keep
  their order here; nothing below depends on it.
\<close>

definition Sort :: "KeyVaultValueVersionHistory \<Rightarrow> KeyVaultValueVersionHistory" where
  "Sort h = sort_key vv_Created h"

text \<open>
  The search loop of \<^verbatim>\<open>trimVersionHistory\<close>: the index of the first entry with the
  given version, or \<open>-1\<close>.
\<close>

fun versionIndexFrom :: "nat \<Rightarrow> KeyVaultValueVersionHistory \<Rightarrow> string \<Rightarrow> int" where
  "versionIndexFrom i [] version = - 1"
| "versionIndexFrom i (v # vs) version =
     (if vv_Version v = version then int i else versionIndexFrom (Suc i) vs version)"

definition trimVersionHistory ::
  "KeyVaultValueVersionHistory \<Rightarrow> int \<Rightarrow> string \<Rightarrow> KeyVaultValueVersionHistory may_panic" where
  "trimVersionHistory versionHistory limit version =
     (if version = [] then
        (let limit' = (if limit > int (length versionHistory)
                       then int (length versionHistory) else limit)
         in go_slice versionHistory
              (wrap_int (int (length versionHistory) - limit'))
              (int (length versionHistory)))
      else
        (let versionIndex = versionIndexFrom 0 versionHistory version;
             start = wrap_int (versionIndex - limit);
             start' = (if start < 0 then 0 else start)
         in go_slice versionHistory start' (wrap_int (versionIndex + 1))))"

section \<open>Errors, vault responses and external libraries\<close>

subsection \<open>Errors\<close>

text \<open>
  The body of an HTTP error response, as \<^verbatim>\<open>io.ReadAll\<close> followed by \<^verbatim>\<open>json.Unmarshal\<close>
  into the local \<^verbatim>\<open>AzureError\<close> struct sees it: the read fails, the bytes are not JSON
  of that shape, or the struct is filled (absent fields are empty strings).
\<close>

record AzureError =
  ae_Code :: string
  ae_Message :: string
  ae_InnerErrorCode :: string

datatype http_body = BodyReadError | BodyNotJSON | BodyJSON AzureError

text \<open>
  Errors a vault client returns: an \<^verbatim>\<open>*azcore.ResponseError\<close> with its status code and
  raw response (a pointer, hence optional), some other error, or an error wrapping
  another one. Errors of the provider: a client error, an opaque error value
  (\<^verbatim>\<open>errors.New\<close>, \<^verbatim>\<open>fmt.Errorf\<close> without \<^verbatim>\<open>%w\<close>, a library failure), \<^verbatim>\<open>fmt.Errorf\<close> wrapping with
  \<^verbatim>\<open>%w\<close>, and the project's coded error (code, original error, detail message).
\<close>

datatype azerror =
    ResponseError int "http_body option"
  | OtherError string
  | WrappedError string azerror

datatype error =
    ClientError azerror
  | PlainError string
  | Errorf string error
  | RatifyError string "error option" string

definition ErrorCodeCertInvalid :: string where
  "ErrorCodeCertInvalid = ''CERT_INVALID''"

definition ErrorCodeKeyInvalid :: string where
  "ErrorCodeKeyInvalid = ''KEY_INVALID''"

definition ProviderName :: string where
  "ProviderName = ''azurekeyvault''"

definition PKCS12ContentType :: string where
  "PKCS12ContentType = ''application/x-pkcs12''"

definition PEMContentType :: string where
  "PEMContentType = ''application/x-pem-file''"

text \<open>\<^verbatim>\<open>errors.As(err, &httpErr)\<close>: the first response error along the wrapping chain.\<close>

fun errorsAs :: "azerror \<Rightarrow> (int \<times> http_body option) option" where
  "errorsAs (ResponseError code raw) = Some (code, raw)"
| "errorsAs (OtherError msg) = None"
| "errorsAs (WrappedError msg e) = errorsAs e"

definition StatusForbidden :: int where
  "StatusForbidden = 403"

definition isSecretDisabledError :: "azerror \<Rightarrow> bool may_panic" where
  "isSecretDisabledError err =
     (case errorsAs err of
        None \<Rightarrow> Returns False
      | Some (statusCode, rawResponse) \<Rightarrow>
          if statusCode \<noteq> StatusForbidden then Returns False
          else (case rawResponse of
                  None \<Rightarrow> Panics NilPointerDereference
                | Some BodyReadError \<Rightarrow> Returns False
                | Some BodyNotJSON \<Rightarrow> Returns False
                | Some (BodyJSON azureError) \<Rightarrow>
                    Returns (ae_Code azureError = ''Forbidden''
                             \<and> ae_InnerErrorCode azureError = ''SecretDisabled'')))"

subsection \<open>Vault objects\<close>

text \<open>Pointer fields of the SDK's response structs are optional values.\<close>

record Attributes =
  at_Enabled :: "bool option"
  at_Created :: "int option"

record SecretBundle =
  sb_Attributes :: "Attributes option"
  sb_ContentType :: "string option"
  sb_ID :: "string option"
  sb_Value :: "string option"

record CertificateBundle =
  cb_Attributes :: "Attributes option"
  cb_ID :: "string option"

record CertificateItem =
  ci_Attributes :: "Attributes option"
  ci_ID :: "string option"

record JSONWebKey =
  jwk_KID :: "string option"
  jwk_Kty :: "string option"
  jwk_Fields :: string

record KeyBundle =
  kb_Attributes :: "Attributes option"
  kb_Key :: "JSONWebKey option"

record KeyItem =
  ki_Attributes :: "Attributes option"
  ki_KID :: "string option"

definition isValidCertificateBundle :: "CertificateBundle \<Rightarrow> bool" where
  "isValidCertificateBundle certBundle =
     (case cb_Attributes certBundle of
        None \<Rightarrow> False
      | Some a \<Rightarrow> at_Enabled a \<noteq> None \<and> cb_ID certBundle \<noteq> None)"

definition isValidSecretBundle :: "SecretBundle \<Rightarrow> bool" where
  "isValidSecretBundle secretBundle =
     (case sb_Attributes secretBundle of
        None \<Rightarrow> False
      | Some a \<Rightarrow> at_Enabled a \<noteq> None \<and> sb_ContentType secretBundle \<noteq> None
                  \<and> sb_Value secretBundle \<noteq> None \<and> sb_ID secretBundle \<noteq> None)"

definition isValidCertificateItem :: "CertificateItem \<Rightarrow> bool" where
  "isValidCertificateItem cert =
     (ci_ID cert \<noteq> None \<and>
      (case ci_Attributes cert of
         None \<Rightarrow> False
       | Some a \<Rightarrow> at_Created a \<noteq> None \<and> at_Enabled a \<noteq> None))"

definition isValidKeyBundle :: "KeyBundle \<Rightarrow> bool" where
  "isValidKeyBundle keyBundle =
     (case kb_Attributes keyBundle of
        None \<Rightarrow> False
      | Some a \<Rightarrow> at_Enabled a \<noteq> None)"

definition isValidKeyItem :: "KeyItem \<Rightarrow> bool" where
  "isValidKeyItem key =
     (ki_KID key \<noteq> None \<and>
      (case ki_Attributes key of
         None \<Rightarrow> False
       | Some a \<Rightarrow> at_Created a \<noteq> None \<and> at_Enabled a \<noteq> None))"

subsection \<open>Map keys, status entries, warnings\<close>

record KMPMapKey =
  mk_Name :: string
  mk_Version :: string
  mk_Enabled :: bool

text \<open>
  A status property is the four-entry string map that \<^verbatim>\<open>getStatusProperty\<close> builds
  (name, version, enabled, last refreshed); its keys are constants of the \<^verbatim>\<open>types\<close>
  package, so the entry is kept as a record of the four values.
\<close>

record status =
  st_Name :: string
  st_Version :: string
  st_Enabled :: string
  st_LastRefreshed :: string

definition FormatBool :: "bool \<Rightarrow> string" where
  "FormatBool b = (if b then ''true'' else ''false'')"

definition getStatusProperty :: "string \<Rightarrow> string \<Rightarrow> string \<Rightarrow> bool \<Rightarrow> status" where
  "getStatusProperty name version lastRefreshed enabled =
     \<lparr>st_Name = name, st_Version = version, st_Enabled = FormatBool enabled,
      st_LastRefreshed = lastRefreshed\<rparr>"

text \<open>
  Modelled from the spec: the keys \<^verbatim>\<open>types.CertificatesStatus\<close> and \<^verbatim>\<open>types.KeysStatus\<close>
  are not among the sources; the status document is keyed by material kind,
  "certificates" or "keys".
\<close>

definition CertificatesStatus :: string where
  "CertificatesStatus = ''certificates''"

definition KeysStatus :: string where
  "KeysStatus = ''keys''"

type_synonym KeyManagementProviderStatus = "string \<rightharpoonup> status list"

definition getStatusMap :: "status list \<Rightarrow> string \<Rightarrow> KeyManagementProviderStatus" where
  "getStatusMap statusMap contentType = Map.empty(contentType \<mapsto> statusMap)"

text \<open>The warnings the provider logs, one constructor for each \<^verbatim>\<open>Warnf\<close> call site.\<close>

datatype warning =
    InvalidSecretBundle string string
  | InvalidCertificateBundle string string
  | InvalidCertificateItem string string
  | NoCertificateVersions string
  | InvalidKeyBundle string string
  | InvalidKeyItem string string
  | NoKeyVersions string
  | PrivateKeySkipped string string
  | UnknownBlockType string string string

text \<open>\<^verbatim>\<open>getObjectVersion\<close>: the last component of the id, split at every slash.\<close>

fun Split :: "char \<Rightarrow> string \<Rightarrow> string list" where
  "Split sep [] = [[]]"
| "Split sep (c # cs) =
     (if c = sep then [] # Split sep cs
      else (case Split sep cs of
              [] \<Rightarrow> [[c]]
            | w # ws \<Rightarrow> (c # w) # ws))"

definition getObjectVersion :: "string \<Rightarrow> string" where
  "getObjectVersion ident = last (Split (CHR ''/'') ident)"


subsection \<open>External libraries\<close>

text \<open>
  The standard library and the SDK are not re-implemented; the provider takes them as
  functions. \<open>pem_Decode\<close> is the view of a byte string that repeated calls of
  \<^verbatim>\<open>pem.Decode\<close> give: the blocks found, in order, and the rest that is left when no
  further block is found. \<open>timeNow n\<close> is the RFC 3339 rendering of the \<open>n\<close>-th reading
  of the clock. \<open>DecodeCertificates\<close> is the project's X.509 decoder, which is not among
  the sources. Debug logging and metrics reporting have no effect on the results and are
  left out, except that \<^verbatim>\<open>time.Since\<close> counts as a reading of the clock.
\<close>

record pem_block =
  pb_Type :: string
  pb_Bytes :: string

record ('c, 'k) libs =
  base64_DecodeString :: "string \<Rightarrow> error + string"
  pkcs12_ToPEM :: "string \<Rightarrow> error + pem_block list"
  pem_EncodeToMemory :: "pem_block \<Rightarrow> string"
  pem_Decode :: "string \<Rightarrow> pem_block list \<times> string"
  DecodeCertificates :: "string \<Rightarrow> error + 'c list"
  json_Marshal :: "JSONWebKey \<Rightarrow> error + string"
  jose_UnmarshalJSON :: "string \<Rightarrow> error + 'k"
  ID_Version :: "string \<Rightarrow> string"
  timeNow :: "nat \<Rightarrow> string"

subsection \<open>Parsing a secret bundle into certificates\<close>

text \<open>
  The three results of \<^verbatim>\<open>getCertsFromSecretBundle\<close> (certificates, status entries,
  error) are kept as they are returned, \<open>None\<close> for \<^verbatim>\<open>nil\<close>; the warnings logged on the
  way and the number of clock readings so far are returned beside them (the function
  reads the clock once, after the content type has been accepted).
\<close>

type_synonym 'c certs_result = "'c list option \<times> status list option \<times> error option"

definition unsupportedContentTypeMessage :: "string \<Rightarrow> string \<Rightarrow> string \<Rightarrow> string" where
  "unsupportedContentTypeMessage certName version contentType =
     ''certificate '' @ certName @ '' version '' @ version
       @ '', unsupported secret content type '' @ contentType
       @ '', supported type are '' @ PKCS12ContentType @ '' and '' @ PEMContentType"

text \<open>
  The \<^verbatim>\<open>switch\<close> on the type of one block: a private key and an unknown type leave a
  warning, a certificate block is decoded and each decoded certificate adds itself and
  one status entry.
\<close>

definition blockStep ::
  "('c, 'k) libs \<Rightarrow> string \<Rightarrow> string \<Rightarrow> string \<Rightarrow> bool \<Rightarrow> pem_block
     \<Rightarrow> 'c list \<Rightarrow> status list \<Rightarrow> warning list
     \<Rightarrow> error + 'c list \<times> status list \<times> warning list" where
  "blockStep L certName version lastRefreshed enabled block results certsStatus ws =
     (if pb_Type block = ''PRIVATE KEY'' then
        Inr (results, certsStatus, ws @ [PrivateKeySkipped certName version])
      else if pb_Type block = ''CERTIFICATE'' then
        (case DecodeCertificates L (pem_EncodeToMemory L block) of
           Inl err \<Rightarrow>
             Inl (RatifyError ErrorCodeCertInvalid (Some err)
                    (''azure keyvault key management provider: failed to decode Certificate ''
                       @ certName @ '', version '' @ version))
         | Inr decodedCerts \<Rightarrow>
             Inr (results @ decodedCerts,
                  certsStatus @ map (\<lambda>cert. getStatusProperty certName version lastRefreshed enabled)
                                    decodedCerts,
                  ws))
      else Inr (results, certsStatus, ws @ [UnknownBlockType certName version (pb_Type block)]))"

text \<open>
  The block loop. \<open>blocks\<close> are the blocks still to be visited, the first one being the
  current \<^verbatim>\<open>block\<close>; \<open>rest\<close> is what \<^verbatim>\<open>pem.Decode\<close> leaves once they are used up. After
  the last block the next \<^verbatim>\<open>pem.Decode\<close> finds none, and a rest that is not empty is an
  error.
\<close>

fun walkBlocks ::
  "('c, 'k) libs \<Rightarrow> string \<Rightarrow> string \<Rightarrow> string \<Rightarrow> bool \<Rightarrow> pem_block list \<Rightarrow> string
     \<Rightarrow> 'c list \<Rightarrow> status list \<Rightarrow> warning list \<Rightarrow> 'c certs_result \<times> warning list" where
  "walkBlocks L certName version lastRefreshed enabled [] rest results certsStatus ws =
     ((Some results, Some certsStatus, None), ws)"
| "walkBlocks L certName version lastRefreshed enabled (block # blocks) rest results certsStatus ws =
     (case blockStep L certName version lastRefreshed enabled block results certsStatus ws of
        Inl err \<Rightarrow> ((None, None, Some err), ws)
      | Inr (results', certsStatus', ws') \<Rightarrow>
          if blocks = [] \<and> rest \<noteq> [] then
            ((None, None, Some (RatifyError ErrorCodeCertInvalid None
               (''certificate '' @ [CHR 39] @ certName @ [CHR 39] @ '', version ''
                  @ [CHR 39] @ version @ [CHR 39]
                  @ '': azure keyvault key management provider error, block is nil and remaining block to parse > 0''))),
             ws')
          else walkBlocks L certName version lastRefreshed enabled blocks rest results' certsStatus' ws')"

definition getCertsFromSecretBundle ::
  "('c, 'k) libs \<Rightarrow> nat \<Rightarrow> SecretBundle \<Rightarrow> string \<Rightarrow> bool
     \<Rightarrow> 'c certs_result may_panic \<times> warning list \<times> nat" where
  "getCertsFromSecretBundle L clk secretBundle certName enabled =
     (case sb_ID secretBundle of
        None \<Rightarrow> (Panics NilPointerDereference, [], clk)
      | Some ident \<Rightarrow>
          let version = getObjectVersion ident in
          (case sb_ContentType secretBundle of
             None \<Rightarrow> (Panics NilPointerDereference, [], clk)
           | Some contentType \<Rightarrow>
               if contentType \<noteq> PKCS12ContentType \<and> contentType \<noteq> PEMContentType then
                 (Returns (None, None, Some (RatifyError ErrorCodeCertInvalid None
                    (unsupportedContentTypeMessage certName version contentType))), [], clk)
               else
                 let lastRefreshed = timeNow L clk in
                 (case sb_Value secretBundle of
                    None \<Rightarrow> (Panics NilPointerDereference, [], Suc clk)
                  | Some val \<Rightarrow>
                      if contentType = PKCS12ContentType then
                        (case base64_DecodeString L val of
                           Inl err \<Rightarrow>
                             (Returns (None, None, Some (RatifyError ErrorCodeCertInvalid (Some err)
                                (''azure keyvault key management provider: failed to decode PKCS12 Value. Certificate ''
                                   @ certName @ '', version '' @ version))), [], Suc clk)
                         | Inr p12 \<Rightarrow>
                             (case pkcs12_ToPEM L p12 of
                                Inl err \<Rightarrow>
                                  (Returns (None, None, Some (RatifyError ErrorCodeCertInvalid (Some err)
                                     (''azure keyvault key management provider: failed to convert PKCS12 Value to PEM. Certificate ''
                                        @ certName @ '', version '' @ version))), [], Suc clk)
                              | Inr blocks \<Rightarrow>
                                  (case pem_Decode L (concat (map (pem_EncodeToMemory L) blocks)) of
                                     (bs, rest) \<Rightarrow>
                                       (case walkBlocks L certName version lastRefreshed enabled bs rest [] [] [] of
                                          (r, ws) \<Rightarrow> (Returns r, ws, Suc clk)))))
                      else
                        (case pem_Decode L val of
                           (bs, rest) \<Rightarrow>
                             (case walkBlocks L certName version lastRefreshed enabled bs rest [] [] [] of
                                (r, ws) \<Rightarrow> (Returns r, ws, Suc clk))))))"

subsection \<open>Parsing a key bundle into a public key\<close>

definition getKeyFromKeyBundle :: "('c, 'k) libs \<Rightarrow> KeyBundle \<Rightarrow> error + 'k" where
  "getKeyFromKeyBundle L keyBundle =
     (case kb_Key keyBundle of
        None \<Rightarrow> Inl (RatifyError ErrorCodeKeyInvalid None
                      ''found invalid key bundle, key must not be nil'')
      | Some webKey \<Rightarrow>
          (case jwk_Kty webKey of
             None \<Rightarrow> Inl (RatifyError ErrorCodeKeyInvalid None
                           ''found invalid key bundle, keytype must not be nil'')
           | Some keyType \<Rightarrow>
               let webKey' = (if keyType = ''EC-HSM'' then webKey\<lparr>jwk_Kty := Some ''EC''\<rparr>
                              else if keyType = ''RSA-HSM'' then webKey\<lparr>jwk_Kty := Some ''RSA''\<rparr>
                              else webKey)
               in (case json_Marshal L webKey' of
                     Inl err \<Rightarrow> Inl (RatifyError ErrorCodeKeyInvalid (Some err) ''failed to marshal key'')
                   | Inr keyBytes \<Rightarrow>
                       (case jose_UnmarshalJSON L keyBytes of
                          Inl err \<Rightarrow> Inl (RatifyError ErrorCodeKeyInvalid (Some err)
                                            ''failed to unmarshal key into JSON Web Key'')
                        | Inr key \<Rightarrow> Inr key))))"


section \<open>The provider\<close>

subsection \<open>Provider, shared store and fetch state\<close>

text \<open>
  The provider holds its configuration and its three vault clients; a client call is a
  function of its arguments, and a pager is the list of its pages, each page an error
  or its items (none of them \<^verbatim>\<open>nil\<close>).
\<close>

record akvKMProvider =
  resource :: string
  certificates :: "KeyVaultValue list"
  keys :: "KeyVaultValue list"
  GetSecret :: "string \<Rightarrow> string \<Rightarrow> azerror + SecretBundle"
  GetCertificate :: "string \<Rightarrow> string \<Rightarrow> azerror + CertificateBundle"
  NewListCertificateVersionsPager :: "string \<Rightarrow> (azerror + CertificateItem list) list"
  GetKey :: "string \<Rightarrow> string \<Rightarrow> azerror + KeyBundle"
  NewListKeyVersionsPager :: "string \<Rightarrow> (azerror + KeyItem list) list"

text \<open>
  What outlives a fetch call: the shared store of one material kind (per resource, from
  map key to material), the warnings logged, and the number of clock readings. During
  a call the state also has the map and the status list being built.
\<close>

record 'm world =
  w_sharedStore :: "string \<Rightarrow> KMPMapKey \<rightharpoonup> 'm"
  w_logged :: "warning list"
  w_clock :: nat

record 'm fetch_state =
  materialMap :: "KMPMapKey \<rightharpoonup> 'm"
  statusList :: "status list"
  sharedStore :: "string \<Rightarrow> KMPMapKey \<rightharpoonup> 'm"
  logged :: "warning list"
  clock :: nat

definition init_state :: "'m world \<Rightarrow> 'm fetch_state" where
  "init_state w =
     \<lparr>materialMap = Map.empty, statusList = [], sharedStore = w_sharedStore w,
      logged = w_logged w, clock = w_clock w\<rparr>"

definition world_of :: "'m fetch_state \<Rightarrow> 'm world" where
  "world_of st = \<lparr>w_sharedStore = sharedStore st, w_logged = logged st, w_clock = clock st\<rparr>"

text \<open>
  Modelled from the spec: \<^verbatim>\<open>keymanagementprovider.DeleteCertificateFromMap\<close> and
  \<^verbatim>\<open>DeleteKeyFromMap\<close> are not among the sources; the shared store supports a targeted
  delete by (provider identity, map key).
\<close>

definition DeleteCertificateFromMap ::
  "string \<Rightarrow> KMPMapKey \<Rightarrow> (string \<Rightarrow> KMPMapKey \<rightharpoonup> 'm) \<Rightarrow> (string \<Rightarrow> KMPMapKey \<rightharpoonup> 'm)" where
  "DeleteCertificateFromMap res mapKey store = store(res := (store res)(mapKey := None))"

definition DeleteKeyFromMap ::
  "string \<Rightarrow> KMPMapKey \<Rightarrow> (string \<Rightarrow> KMPMapKey \<rightharpoonup> 'm) \<Rightarrow> (string \<Rightarrow> KMPMapKey \<rightharpoonup> 'm)" where
  "DeleteKeyFromMap res mapKey store = store(res := (store res)(mapKey := None))"

text \<open>The \<^verbatim>\<open>error\<close> result of a processing step: \<^verbatim>\<open>nil\<close>, an error, or a panic.\<close>

datatype outcome = Panicked panic | Failed error | Done

definition sliceOf :: "'a list option \<Rightarrow> 'a list" where
  "sliceOf s = (case s of None \<Rightarrow> [] | Some xs \<Rightarrow> xs)"

subsection \<open>Certificates\<close>

definition handleDisabledSecret ::
  "akvKMProvider \<Rightarrow> ('c, 'k) libs \<Rightarrow> KeyVaultValue \<Rightarrow> string \<Rightarrow> 'c list fetch_state
     \<Rightarrow> outcome \<times> 'c list fetch_state" where
  "handleDisabledSecret s L keyVaultCert startTime st =
     (case GetCertificate s (kv_Name keyVaultCert) (kv_Version keyVaultCert) of
        Inl err \<Rightarrow>
          (Failed (Errorf (''failed to get certificate objectName:'' @ kv_Name keyVaultCert
                             @ '', objectVersion:'' @ kv_Version keyVaultCert @ '', error: '')
                          (ClientError err)), st)
      | Inr certBundle \<Rightarrow>
          if \<not> isValidCertificateBundle certBundle then
            (Done, st\<lparr>logged := logged st
                       @ [InvalidCertificateBundle (kv_Name keyVaultCert) (kv_Version keyVaultCert)]\<rparr>)
          else
            let version = ID_Version L (the (cb_ID certBundle));
                isEnabled = the (at_Enabled (the (cb_Attributes certBundle)));
                certProperty = getStatusProperty (kv_Name keyVaultCert) version startTime isEnabled;
                mapKey = \<lparr>mk_Name = kv_Name keyVaultCert, mk_Version = version, mk_Enabled = isEnabled\<rparr>
            in (Done, st\<lparr>statusList := statusList st @ [certProperty],
                         sharedStore := DeleteCertificateFromMap (resource s) mapKey (sharedStore st)\<rparr>))"

definition processCertificateVersion ::
  "akvKMProvider \<Rightarrow> ('c, 'k) libs \<Rightarrow> KeyVaultValue \<Rightarrow> string \<Rightarrow> 'c list fetch_state
     \<Rightarrow> outcome \<times> 'c list fetch_state" where
  "processCertificateVersion s L keyVaultCert startTime st =
     (case GetSecret s (kv_Name keyVaultCert) (kv_Version keyVaultCert) of
        Inl err \<Rightarrow>
          (case isSecretDisabledError err of
             Panics p \<Rightarrow> (Panicked p, st)
           | Returns disabled \<Rightarrow>
               if \<not> disabled then
                 (Failed (Errorf (''failed to get secret objectName:'' @ kv_Name keyVaultCert
                                    @ '', objectVersion:'' @ kv_Version keyVaultCert @ '', error: '')
                                 (ClientError err)), st)
               else handleDisabledSecret s L keyVaultCert startTime st)
      | Inr secretBundle \<Rightarrow>
          if \<not> isValidSecretBundle secretBundle then
            (Done, st\<lparr>logged := logged st
                       @ [InvalidSecretBundle (kv_Name keyVaultCert) (kv_Version keyVaultCert)]\<rparr>)
          else
            let isEnabled = the (at_Enabled (the (sb_Attributes secretBundle)));
                version = ID_Version L (the (sb_ID secretBundle))
            in (case getCertsFromSecretBundle L (clock st) secretBundle (kv_Name keyVaultCert) isEnabled of
                  (r, ws, clk) \<Rightarrow>
                    let st1 = st\<lparr>logged := logged st @ ws, clock := clk\<rparr> in
                    (case r of
                       Panics p \<Rightarrow> (Panicked p, st1)
                     | Returns (certResult, certProperty, Some err) \<Rightarrow>
                         (Failed (Errorf ''failed to get certificates from secret bundle:'' err), st1)
                     | Returns (certResult, certProperty, None) \<Rightarrow>
                         (Done, st1\<lparr>clock := Suc clk,
                                     statusList := statusList st1 @ sliceOf certProperty,
                                     materialMap := (materialMap st1)
                                       (\<lparr>mk_Name = kv_Name keyVaultCert, mk_Version = version,
                                         mk_Enabled = isEnabled\<rparr> \<mapsto> sliceOf certResult)\<rparr>))))"

fun collectCertificateItems ::
  "('c, 'k) libs \<Rightarrow> string \<Rightarrow> CertificateItem list \<Rightarrow> KeyVaultValueVersionHistory \<Rightarrow> warning list
     \<Rightarrow> KeyVaultValueVersionHistory \<times> warning list" where
  "collectCertificateItems L certName [] versionHistory ws = (versionHistory, ws)"
| "collectCertificateItems L certName (cert # certs) versionHistory ws =
     (if \<not> isValidCertificateItem cert then
        collectCertificateItems L certName certs versionHistory
          (ws @ [InvalidCertificateItem certName
                   (case ci_ID cert of None \<Rightarrow> [] | Some i \<Rightarrow> ID_Version L i)])
      else
        collectCertificateItems L certName certs
          (versionHistory @
             [\<lparr>vv_Version = ID_Version L (the (ci_ID cert)),
               vv_Created = the (at_Created (the (ci_Attributes cert))),
               vv_Enabled = the (at_Enabled (the (ci_Attributes cert)))\<rparr>])
          ws)"

fun certificateVersionPages ::
  "('c, 'k) libs \<Rightarrow> string \<Rightarrow> (azerror + CertificateItem list) list
     \<Rightarrow> KeyVaultValueVersionHistory \<Rightarrow> warning list
     \<Rightarrow> (error + KeyVaultValueVersionHistory) \<times> warning list" where
  "certificateVersionPages L certName [] versionHistory ws = (Inr versionHistory, ws)"
| "certificateVersionPages L certName (Inl err # pages) versionHistory ws =
     (Inl (Errorf (''failed to get certificate versions for objectName:'' @ certName @ '', error: '')
                  (ClientError err)), ws)"
| "certificateVersionPages L certName (Inr items # pages) versionHistory ws =
     (case collectCertificateItems L certName items versionHistory ws of
        (versionHistory', ws') \<Rightarrow> certificateVersionPages L certName pages versionHistory' ws')"

definition fetchCertificateVersionHistory ::
  "akvKMProvider \<Rightarrow> ('c, 'k) libs \<Rightarrow> string
     \<Rightarrow> (error + KeyVaultValueVersionHistory) \<times> warning list" where
  "fetchCertificateVersionHistory s L certName =
     (case certificateVersionPages L certName (NewListCertificateVersionsPager s certName) [] [] of
        (Inl err, ws) \<Rightarrow> (Inl err, ws)
      | (Inr versionHistory, ws) \<Rightarrow> (Inr (Sort versionHistory), ws))"

fun certificateVersionsLoop ::
  "akvKMProvider \<Rightarrow> ('c, 'k) libs \<Rightarrow> KeyVaultValue \<Rightarrow> string \<Rightarrow> KeyVaultValueVersionHistory
     \<Rightarrow> 'c list fetch_state \<Rightarrow> outcome \<times> 'c list fetch_state" where
  "certificateVersionsLoop s L keyVaultCert startTime [] st = (Done, st)"
| "certificateVersionsLoop s L keyVaultCert startTime (certVersion # versions) st =
     (if \<not> vv_Enabled certVersion then
        certificateVersionsLoop s L keyVaultCert startTime versions
          (st\<lparr>statusList := statusList st
                 @ [getStatusProperty (kv_Name keyVaultCert) (vv_Version certVersion) startTime False],
               sharedStore := DeleteCertificateFromMap (resource s)
                 \<lparr>mk_Name = kv_Name keyVaultCert, mk_Version = vv_Version certVersion,
                   mk_Enabled = False\<rparr> (sharedStore st)\<rparr>)
      else
        (case GetSecret s (kv_Name keyVaultCert) (vv_Version certVersion) of
           Inl err \<Rightarrow>
             (Failed (Errorf (''failed to get secret objectName:'' @ kv_Name keyVaultCert
                                @ '', objectVersion:'' @ vv_Version certVersion @ '', error: '')
                             (ClientError err)), st)
         | Inr secretBundle \<Rightarrow>
             if \<not> isValidSecretBundle secretBundle then
               certificateVersionsLoop s L keyVaultCert startTime versions
                 (st\<lparr>logged := logged st
                        @ [InvalidSecretBundle (kv_Name keyVaultCert) (vv_Version certVersion)]\<rparr>)
             else
               (case getCertsFromSecretBundle L (clock st) secretBundle (kv_Name keyVaultCert)
                       (vv_Enabled certVersion) of
                  (r, ws, clk) \<Rightarrow>
                    let st1 = st\<lparr>logged := logged st @ ws, clock := clk\<rparr> in
                    (case r of
                       Panics p \<Rightarrow> (Panicked p, st1)
                     | Returns (certResult, certProperty, Some err) \<Rightarrow>
                         (Failed (Errorf ''failed to get certificates from secret bundle:'' err), st1)
                     | Returns (certResult, certProperty, None) \<Rightarrow>
                         certificateVersionsLoop s L keyVaultCert startTime versions
                           (st1\<lparr>clock := Suc clk,
                                 statusList := statusList st1 @ sliceOf certProperty,
                                 materialMap := (materialMap st1)
                                   (\<lparr>mk_Name = kv_Name keyVaultCert,
                                     mk_Version = vv_Version certVersion,
                                     mk_Enabled = vv_Enabled certVersion\<rparr> \<mapsto> sliceOf certResult)\<rparr>)))))"

definition processCertificateVersions ::
  "akvKMProvider \<Rightarrow> ('c, 'k) libs \<Rightarrow> KeyVaultValue \<Rightarrow> string \<Rightarrow> 'c list fetch_state
     \<Rightarrow> outcome \<times> 'c list fetch_state" where
  "processCertificateVersions s L keyVaultCert startTime st =
     (case fetchCertificateVersionHistory s L (kv_Name keyVaultCert) of
        (Inl err, ws) \<Rightarrow>
          (Failed (Errorf (''failed to fetch version history for certificate ''
                             @ kv_Name keyVaultCert @ '': '') err),
           st\<lparr>logged := logged st @ ws\<rparr>)
      | (Inr versionHistory, ws) \<Rightarrow>
          let st1 = st\<lparr>logged := logged st @ ws\<rparr> in
          (case trimVersionHistory versionHistory (kv_VersionHistoryLimit keyVaultCert)
                  (kv_Version keyVaultCert) of
             Panics p \<Rightarrow> (Panicked p, st1)
           | Returns trimmed \<Rightarrow>
               if length trimmed = 0 then
                 (Done, st1\<lparr>logged := logged st1 @ [NoCertificateVersions (kv_Name keyVaultCert)]\<rparr>)
               else certificateVersionsLoop s L keyVaultCert startTime trimmed st1))"

definition processCertificate ::
  "akvKMProvider \<Rightarrow> ('c, 'k) libs \<Rightarrow> KeyVaultValue \<Rightarrow> 'c list fetch_state
     \<Rightarrow> outcome \<times> 'c list fetch_state" where
  "processCertificate s L keyVaultCert st =
     (let startTime = timeNow L (clock st);
          st1 = st\<lparr>clock := Suc (clock st)\<rparr>
      in if kv_VersionHistoryLimit keyVaultCert = 0
         then processCertificateVersion s L keyVaultCert startTime st1
         else processCertificateVersions s L keyVaultCert startTime st1)"

fun processCertificates ::
  "akvKMProvider \<Rightarrow> ('c, 'k) libs \<Rightarrow> KeyVaultValue list \<Rightarrow> 'c list fetch_state
     \<Rightarrow> outcome \<times> 'c list fetch_state" where
  "processCertificates s L [] st = (Done, st)"
| "processCertificates s L (keyVaultCert # others) st =
     (case processCertificate s L keyVaultCert st of
        (Done, st') \<Rightarrow> processCertificates s L others st'
      | (Failed err, st') \<Rightarrow> (Failed err, st')
      | (Panicked p, st') \<Rightarrow> (Panicked p, st'))"

text \<open>
  \<^verbatim>\<open>GetCertificates\<close> returns its three results (map, status document, error) unless it
  panics; what it did to the shared store, the log and the clock stays in either case.
\<close>

type_synonym 'm fetch_result =
  "(KMPMapKey \<rightharpoonup> 'm) option \<times> KeyManagementProviderStatus option \<times> error option"

definition GetCertificates ::
  "akvKMProvider \<Rightarrow> ('c, 'k) libs \<Rightarrow> 'c list world
     \<Rightarrow> 'c list fetch_result may_panic \<times> 'c list world" where
  "GetCertificates s L w =
     (case processCertificates s L (certificates s) (init_state w) of
        (Done, st) \<Rightarrow>
          (Returns (Some (materialMap st), Some (getStatusMap (statusList st) CertificatesStatus), None),
           world_of st)
      | (Failed err, st) \<Rightarrow> (Returns (None, None, Some err), world_of st)
      | (Panicked p, st) \<Rightarrow> (Panics p, world_of st))"


subsection \<open>Keys\<close>

definition processKeyVersion ::
  "akvKMProvider \<Rightarrow> ('c, 'k) libs \<Rightarrow> KeyVaultValue \<Rightarrow> string \<Rightarrow> 'k fetch_state
     \<Rightarrow> outcome \<times> 'k fetch_state" where
  "processKeyVersion s L keyVaultKey startTime st =
     (case GetKey s (kv_Name keyVaultKey) (kv_Version keyVaultKey) of
        Inl err \<Rightarrow>
          (Failed (Errorf (''failed to get key objectName:'' @ kv_Name keyVaultKey
                             @ '', objectVersion:'' @ kv_Version keyVaultKey @ '', error: '')
                          (ClientError err)), st)
      | Inr keyBundle \<Rightarrow>
          if \<not> isValidKeyBundle keyBundle then
            (Done, st\<lparr>logged := logged st
                       @ [InvalidKeyBundle (kv_Name keyVaultKey) (kv_Version keyVaultKey)]\<rparr>)
          else
            let isEnabled = the (at_Enabled (the (kb_Attributes keyBundle))) in
            (case kb_Key keyBundle of
               None \<Rightarrow> (Panicked NilPointerDereference, st)
             | Some webKey \<Rightarrow>
                 (case jwk_KID webKey of
                    None \<Rightarrow> (Panicked NilPointerDereference, st)
                  | Some kid \<Rightarrow>
                      let version = getObjectVersion kid in
                      if \<not> isEnabled then
                        (Done, st\<lparr>statusList := statusList st
                                     @ [getStatusProperty (kv_Name keyVaultKey) version startTime isEnabled],
                                   sharedStore := DeleteKeyFromMap (resource s)
                                     \<lparr>mk_Name = kv_Name keyVaultKey, mk_Version = version,
                                       mk_Enabled = isEnabled\<rparr> (sharedStore st)\<rparr>)
                      else
                        (case getKeyFromKeyBundle L keyBundle of
                           Inl err \<Rightarrow> (Failed (Errorf ''failed to get key from key bundle:'' err), st)
                         | Inr publicKey \<Rightarrow>
                             (Done, st\<lparr>materialMap := (materialMap st)
                                          (\<lparr>mk_Name = kv_Name keyVaultKey, mk_Version = version,
                                            mk_Enabled = isEnabled\<rparr> \<mapsto> publicKey),
                                        clock := Suc (Suc (clock st)),
                                        statusList := statusList st
                                          @ [getStatusProperty (kv_Name keyVaultKey) version
                                               (timeNow L (Suc (clock st))) isEnabled]\<rparr>)))))"

fun collectKeyItems ::
  "('c, 'k) libs \<Rightarrow> string \<Rightarrow> KeyItem list \<Rightarrow> KeyVaultValueVersionHistory \<Rightarrow> warning list
     \<Rightarrow> KeyVaultValueVersionHistory \<times> warning list" where
  "collectKeyItems L keyName [] versionHistory ws = (versionHistory, ws)"
| "collectKeyItems L keyName (key # ks) versionHistory ws =
     (if \<not> isValidKeyItem key then
        collectKeyItems L keyName ks versionHistory
          (ws @ [InvalidKeyItem keyName
                   (case ki_KID key of None \<Rightarrow> [] | Some i \<Rightarrow> ID_Version L i)])
      else
        collectKeyItems L keyName ks
          (versionHistory @
             [\<lparr>vv_Version = ID_Version L (the (ki_KID key)),
               vv_Created = the (at_Created (the (ki_Attributes key))),
               vv_Enabled = the (at_Enabled (the (ki_Attributes key)))\<rparr>])
          ws)"

fun keyVersionPages ::
  "('c, 'k) libs \<Rightarrow> string \<Rightarrow> (azerror + KeyItem list) list
     \<Rightarrow> KeyVaultValueVersionHistory \<Rightarrow> warning list
     \<Rightarrow> (error + KeyVaultValueVersionHistory) \<times> warning list" where
  "keyVersionPages L keyName [] versionHistory ws = (Inr versionHistory, ws)"
| "keyVersionPages L keyName (Inl err # pages) versionHistory ws =
     (Inl (Errorf (''failed to get key versions for objectName:'' @ keyName @ '', error: '')
                  (ClientError err)), ws)"
| "keyVersionPages L keyName (Inr items # pages) versionHistory ws =
     (case collectKeyItems L keyName items versionHistory ws of
        (versionHistory', ws') \<Rightarrow> keyVersionPages L keyName pages versionHistory' ws')"

definition fetchKeyVersionHistory ::
  "akvKMProvider \<Rightarrow> ('c, 'k) libs \<Rightarrow> string
     \<Rightarrow> (error + KeyVaultValueVersionHistory) \<times> warning list" where
  "fetchKeyVersionHistory s L keyName =
     (case keyVersionPages L keyName (NewListKeyVersionsPager s keyName) [] [] of
        (Inl err, ws) \<Rightarrow> (Inl err, ws)
      | (Inr versionHistory, ws) \<Rightarrow> (Inr (Sort versionHistory), ws))"

fun keyVersionsLoop ::
  "akvKMProvider \<Rightarrow> ('c, 'k) libs \<Rightarrow> KeyVaultValue \<Rightarrow> string \<Rightarrow> KeyVaultValueVersionHistory
     \<Rightarrow> 'k fetch_state \<Rightarrow> outcome \<times> 'k fetch_state" where
  "keyVersionsLoop s L keyVaultKey startTime [] st = (Done, st)"
| "keyVersionsLoop s L keyVaultKey startTime (keyVersion # versions) st =
     (if \<not> vv_Enabled keyVersion then
        keyVersionsLoop s L keyVaultKey startTime versions
          (st\<lparr>statusList := statusList st
                 @ [getStatusProperty (kv_Name keyVaultKey) (vv_Version keyVersion) startTime False],
               sharedStore := DeleteKeyFromMap (resource s)
                 \<lparr>mk_Name = kv_Name keyVaultKey, mk_Version = vv_Version keyVersion,
                   mk_Enabled = False\<rparr> (sharedStore st)\<rparr>)
      else
        (case GetKey s (kv_Name keyVaultKey) (vv_Version keyVersion) of
           Inl err \<Rightarrow>
             (Failed (Errorf (''failed to get key objectName:'' @ kv_Name keyVaultKey
                                @ '', objectVersion:'' @ vv_Version keyVersion @ '', error: '')
                             (ClientError err)), st)
         | Inr keyBundle \<Rightarrow>
             if \<not> isValidKeyBundle keyBundle then
               keyVersionsLoop s L keyVaultKey startTime versions
                 (st\<lparr>logged := logged st
                        @ [InvalidKeyBundle (kv_Name keyVaultKey) (vv_Version keyVersion)]\<rparr>)
             else
               (case getKeyFromKeyBundle L keyBundle of
                  Inl err \<Rightarrow> (Failed (Errorf ''failed to get key from key bundle:'' err), st)
                | Inr publicKey \<Rightarrow>
                    keyVersionsLoop s L keyVaultKey startTime versions
                      (st\<lparr>materialMap := (materialMap st)
                             (\<lparr>mk_Name = kv_Name keyVaultKey, mk_Version = vv_Version keyVersion,
                               mk_Enabled = vv_Enabled keyVersion\<rparr> \<mapsto> publicKey),
                           clock := Suc (clock st),
                           statusList := statusList st
                             @ [getStatusProperty (kv_Name keyVaultKey) (vv_Version keyVersion)
                                  (timeNow L (clock st)) (vv_Enabled keyVersion)]\<rparr>))))"

definition processKeyVersions ::
  "akvKMProvider \<Rightarrow> ('c, 'k) libs \<Rightarrow> KeyVaultValue \<Rightarrow> string \<Rightarrow> 'k fetch_state
     \<Rightarrow> outcome \<times> 'k fetch_state" where
  "processKeyVersions s L keyVaultKey startTime st =
     (case fetchKeyVersionHistory s L (kv_Name keyVaultKey) of
        (Inl err, ws) \<Rightarrow>
          (Failed (Errorf (''failed to fetch version history for key ''
                             @ kv_Name keyVaultKey @ '': '') err),
           st\<lparr>logged := logged st @ ws\<rparr>)
      | (Inr versionHistory, ws) \<Rightarrow>
          let st1 = st\<lparr>logged := logged st @ ws\<rparr> in
          (case trimVersionHistory versionHistory (kv_VersionHistoryLimit keyVaultKey)
                  (kv_Version keyVaultKey) of
             Panics p \<Rightarrow> (Panicked p, st1)
           | Returns trimmed \<Rightarrow>
               if length trimmed = 0 then
                 (Done, st1\<lparr>logged := logged st1 @ [NoKeyVersions (kv_Name keyVaultKey)]\<rparr>)
               else keyVersionsLoop s L keyVaultKey startTime trimmed st1))"

definition processKey ::
  "akvKMProvider \<Rightarrow> ('c, 'k) libs \<Rightarrow> KeyVaultValue \<Rightarrow> 'k fetch_state
     \<Rightarrow> outcome \<times> 'k fetch_state" where
  "processKey s L keyVaultKey st =
     (let startTime = timeNow L (clock st);
          st1 = st\<lparr>clock := Suc (clock st)\<rparr>
      in if kv_VersionHistoryLimit keyVaultKey = 0
         then processKeyVersion s L keyVaultKey startTime st1
         else processKeyVersions s L keyVaultKey startTime st1)"

fun processKeys ::
  "akvKMProvider \<Rightarrow> ('c, 'k) libs \<Rightarrow> KeyVaultValue list \<Rightarrow> 'k fetch_state
     \<Rightarrow> outcome \<times> 'k fetch_state" where
  "processKeys s L [] st = (Done, st)"
| "processKeys s L (keyVaultKey # others) st =
     (case processKey s L keyVaultKey st of
        (Done, st') \<Rightarrow> processKeys s L others st'
      | (Failed err, st') \<Rightarrow> (Failed err, st')
      | (Panicked p, st') \<Rightarrow> (Panicked p, st'))"

definition GetKeys ::
  "akvKMProvider \<Rightarrow> ('c, 'k) libs \<Rightarrow> 'k world \<Rightarrow> 'k fetch_result may_panic \<times> 'k world" where
  "GetKeys s L w =
     (case processKeys s L (keys s) (init_state w) of
        (Done, st) \<Rightarrow>
          (Returns (Some (materialMap st), Some (getStatusMap (statusList st) KeysStatus), None),
           world_of st)
      | (Failed err, st) \<Rightarrow> (Returns (None, None, Some err), world_of st)
      | (Panicked p, st) \<Rightarrow> (Panics p, world_of st))"

section \<open>The refresher registry\<close>

text \<open>
  A refresher configuration maps keys to dynamically typed values. A factory is what
  its \<^verbatim>\<open>Create\<close> method does with a configuration; the interface value may be \<^verbatim>\<open>nil\<close>.
  The package-level map \<^verbatim>\<open>refresherFactories\<close> is passed in and returned.
\<close>

datatype config_value = StringValue string | BoolValue bool | NumberValue int | ObjectValue

type_synonym refresherConfig = "string \<rightharpoonup> config_value"

type_synonym 'r RefresherFactory = "refresherConfig \<Rightarrow> 'r"

definition Register ::
  "string \<Rightarrow> 'r RefresherFactory option \<Rightarrow> (string \<rightharpoonup> 'r RefresherFactory)
     \<Rightarrow> (string \<rightharpoonup> 'r RefresherFactory) may_panic" where
  "Register name factory refresherFactories =
     (case factory of
        None \<Rightarrow> Panics (PanicMsg ''refresher factory cannot be nil'')
      | Some f \<Rightarrow>
          (case refresherFactories name of
             Some registered \<Rightarrow>
               Panics (PanicMsg (''refresher factory named '' @ name @ '' already registered''))
           | None \<Rightarrow> Returns (refresherFactories(name \<mapsto> f))))"

text \<open>The type assertion \<^verbatim>\<open>refresherConfig["type"].(string)\<close> with its \<^verbatim>\<open>ok\<close> flag.\<close>

definition typeAssertString :: "config_value option \<Rightarrow> string \<times> bool" where
  "typeAssertString v = (case v of Some (StringValue s) \<Rightarrow> (s, True) | _ \<Rightarrow> ([], False))"

definition CreateRefresherFromConfig ::
  "(string \<rightharpoonup> 'r RefresherFactory) \<Rightarrow> refresherConfig \<Rightarrow> error + 'r" where
  "CreateRefresherFromConfig refresherFactories refresherConfig =
     (case typeAssertString (refresherConfig ''type'') of
        (refresherType, ok) \<Rightarrow>
          if \<not> ok \<or> refresherType = [] then Inl (PlainError ''refresher type cannot be empty'')
          else (case refresherFactories refresherType of
                  None \<Rightarrow> Inl (PlainError (''refresher factory with name '' @ refresherType
                                              @ '' not found''))
                | Some factory \<Rightarrow> Inr (factory refresherConfig)))"


section \<open>A small vault for concrete runs\<close>

text \<open>
  A mock vault in the manner of the project's unit tests, used to run the provider on
  concrete inputs. Certificates and keys are stood for by strings; a PEM text is
  recognised by name.
\<close>

definition testLibs :: "(string, string) libs" where
  "testLibs =
     \<lparr>base64_DecodeString = (\<lambda>v. Inr v),
      pkcs12_ToPEM = (\<lambda>p12. Inl (PlainError ''pkcs12: decoding error'')),
      pem_EncodeToMemory = pb_Bytes,
      pem_Decode = (\<lambda>data.
         if data = ''KEY+CERT1+CERT2'' then
           ([\<lparr>pb_Type = ''PRIVATE KEY'', pb_Bytes = ''k''\<rparr>,
             \<lparr>pb_Type = ''CERTIFICATE'', pb_Bytes = ''c1''\<rparr>,
             \<lparr>pb_Type = ''CERTIFICATE'', pb_Bytes = ''c2''\<rparr>], [])
         else if data = ''CERT1'' then ([\<lparr>pb_Type = ''CERTIFICATE'', pb_Bytes = ''c1''\<rparr>], [])
         else ([], data)),
      DecodeCertificates = (\<lambda>pemData. Inr [pemData]),
      json_Marshal = (\<lambda>webKey. Inr (jwk_Fields webKey)),
      jose_UnmarshalJSON = (\<lambda>keyBytes.
         if keyBytes = [] then Inl (PlainError ''invalid JWK'') else Inr keyBytes),
      ID_Version = getObjectVersion,
      timeNow = (\<lambda>n. ''T'' @ replicate n (CHR ''+''))\<rparr>"

definition secretDisabledBody :: http_body where
  "secretDisabledBody =
     BodyJSON \<lparr>ae_Code = ''Forbidden'',
               ae_Message = ''Operation get is not allowed on a disabled secret.'',
               ae_InnerErrorCode = ''SecretDisabled''\<rparr>"

definition oddDisabledBody :: http_body where
  "oddDisabledBody =
     BodyJSON \<lparr>ae_Code = ''Unauthorized'', ae_Message = [],
               ae_InnerErrorCode = ''SecretDisabled''\<rparr>"

definition testSecret :: "string \<Rightarrow> bool \<Rightarrow> string \<Rightarrow> SecretBundle" where
  "testSecret ident enabled val =
     \<lparr>sb_Attributes = Some \<lparr>at_Enabled = Some enabled, at_Created = Some 10\<rparr>,
      sb_ContentType = Some PEMContentType, sb_ID = Some ident, sb_Value = Some val\<rparr>"

definition testProvider :: "KeyVaultValue list \<Rightarrow> KeyVaultValue list \<Rightarrow> akvKMProvider" where
  "testProvider certs ks =
     \<lparr>resource = ''default/kmp'',
      certificates = certs,
      keys = ks,
      GetSecret = (\<lambda>name version.
         if name = ''certA'' then Inr (testSecret ''https://kv/secrets/certA/v1'' True ''CERT1'')
         else if name = ''certOff'' then Inr (testSecret ''https://kv/secrets/certOff/v1'' False ''CERT1'')
         else if name = ''certDisabled'' then Inl (ResponseError 403 (Some secretDisabledBody))
         else if name = ''certOdd'' then Inl (ResponseError 403 (Some oddDisabledBody))
         else Inl (OtherError ''secret not found'')),
      GetCertificate = (\<lambda>name version.
         if name = ''certDisabled'' then
           Inr \<lparr>cb_Attributes = Some \<lparr>at_Enabled = Some False, at_Created = Some 10\<rparr>,
                cb_ID = Some ''https://kv/certificates/certDisabled/v7''\<rparr>
         else Inl (OtherError ''certificate not found'')),
      NewListCertificateVersionsPager = (\<lambda>name.
         if name = ''certA'' then
           [Inr [\<lparr>ci_Attributes = Some \<lparr>at_Enabled = Some True, at_Created = Some 10\<rparr>,
                  ci_ID = Some ''https://kv/certificates/certA/v1''\<rparr>]]
         else []),
      GetKey = (\<lambda>name version.
         if name = ''keyA'' then
           Inr \<lparr>kb_Attributes = Some \<lparr>at_Enabled = Some True, at_Created = Some 10\<rparr>,
                kb_Key = Some \<lparr>jwk_KID = Some ''https://kv/keys/keyA/v1'', jwk_Kty = Some ''RSA'',
                               jwk_Fields = ''n,e''\<rparr>\<rparr>
         else Inl (OtherError ''key not found'')),
      NewListKeyVersionsPager = (\<lambda>name.
         if name = ''keyA'' then
           [Inr [\<lparr>ki_Attributes = Some \<lparr>at_Enabled = Some True, at_Created = Some 10\<rparr>,
                  ki_KID = Some ''https://kv/keys/keyA/v1''\<rparr>]]
         else [])\<rparr>"

definition emptyWorld :: "'m world" where
  "emptyWorld = \<lparr>w_sharedStore = (\<lambda>res. Map.empty), w_logged = [], w_clock = 0\<rparr>"

definition object :: "string \<Rightarrow> string \<Rightarrow> int \<Rightarrow> KeyVaultValue" where
  "object name version limit =
     \<lparr>kv_Name = name, kv_Version = version, kv_VersionHistoryLimit = limit\<rparr>"

definition staleWorld :: "string list world" where
  "staleWorld =
     \<lparr>w_sharedStore = (\<lambda>res. if res = ''default/kmp''
          then [\<lparr>mk_Name = ''certOff'', mk_Version = ''v1'', mk_Enabled = False\<rparr> \<mapsto> [''stale'']]
          else Map.empty),
      w_logged = [], w_clock = 0\<rparr>"

section \<open>Properties of trimming\<close>

lemma wrap_int_id: "is_int x \<Longrightarrow> wrap_int x = x"
  unfolding wrap_int_def is_int_def by simp

lemma wrap_int_high:
  assumes "2 ^ 63 \<le> x" and "x < 2 ^ 64"
  shows "wrap_int x = x - 2 ^ 64"
proof -
  have "(x + 2 ^ 63) mod 2 ^ 64 = (x + 2 ^ 63 - 2 ^ 64) mod (2 ^ 64)"
    by (simp only: minus_mod_self2)
  also have "\<dots> = x + 2 ^ 63 - 2 ^ 64"
    using assms by (intro mod_pos_pos_trivial) simp_all
  finally show ?thesis
    unfolding wrap_int_def by simp
qed

lemma versionIndexFrom_bounds:
  "- 1 \<le> versionIndexFrom i vs version \<and> versionIndexFrom i vs version < int (i + length vs)"
  by (induction i vs version rule: versionIndexFrom.induct) auto

lemma versionIndexFrom_absent:
  "version \<notin> vv_Version ` set vs \<Longrightarrow> versionIndexFrom i vs version = - 1"
  by (induction i vs version rule: versionIndexFrom.induct) auto

lemma versionIndexFrom_present:
  "version \<in> vv_Version ` set vs \<Longrightarrow>
     int i \<le> versionIndexFrom i vs version \<and>
     vv_Version (vs ! (nat (versionIndexFrom i vs version) - i)) = version"
proof (induction i vs version rule: versionIndexFrom.induct)
  case (1 i version)
  then show ?case by simp
next
  case (2 i v vs version)
  show ?case
  proof (cases "vv_Version v = version")
    case True
    then show ?thesis by simp
  next
    case False
    with 2 have mem: "version \<in> vv_Version ` set vs" by auto
    from 2(1) [OF False mem]
    have ih: "int (Suc i) \<le> versionIndexFrom (Suc i) vs version"
      "vv_Version (vs ! (nat (versionIndexFrom (Suc i) vs version) - Suc i)) = version"
      by auto
    from ih(1) have "nat (versionIndexFrom (Suc i) vs version) - i
        = Suc (nat (versionIndexFrom (Suc i) vs version) - Suc i)"
      by linarith
    with ih False show ?thesis by simp
  qed
qed


lemma go_slice_ok:
  "0 \<le> lo \<Longrightarrow> lo \<le> hi \<Longrightarrow> hi \<le> int (length s) \<Longrightarrow>
     go_slice s lo hi = Returns (take (nat hi - nat lo) (drop (nat lo) s))"
  by (simp add: go_slice_def)

lemma trim_unpinned:
  assumes "0 \<le> limit" and "int (length h) < 2 ^ 63"
  shows "trimVersionHistory h limit [] = Returns (drop (length h - min (nat limit) (length h)) h)"
proof (cases "limit > int (length h)")
  case True
  have "wrap_int 0 = 0" by (simp add: wrap_int_id is_int_def)
  with True show ?thesis
    by (simp add: trimVersionHistory_def go_slice_def min_def)
next
  case False
  let ?d = "int (length h) - limit"
  have "is_int ?d" using assms False by (simp add: is_int_def)
  then have w: "wrap_int ?d = ?d" by (rule wrap_int_id)
  have d: "0 \<le> ?d" "?d \<le> int (length h)" using assms False by simp_all
  have n: "nat ?d = length h - nat limit" using assms False by linarith
  have m: "min (nat limit) (length h) = nat limit" using assms False by simp
  show ?thesis
    using False d by (simp add: trimVersionHistory_def w go_slice_def n m)
qed

lemma trim_negative_panics:
  assumes "h \<noteq> []" and "limit < 0" and "is_int limit" and "int (length h) < 2 ^ 63"
  shows "trimVersionHistory h limit [] = Panics SliceBoundsOutOfRange"
proof -
  let ?d = "int (length h) - limit"
  have len: "0 < int (length h)" using assms(1) by simp
  have bad: "\<not> (0 \<le> wrap_int ?d \<and> wrap_int ?d \<le> int (length h))"
  proof (cases "?d < 2 ^ 63")
    case True
    then have "is_int ?d" using assms len by (simp add: is_int_def)
    then have "wrap_int ?d = ?d" by (rule wrap_int_id)
    then show ?thesis using assms by simp
  next
    case False
    then have lo: "2 ^ 63 \<le> ?d" by simp
    have hi: "?d < 2 ^ 64" using assms by (simp add: is_int_def)
    have "wrap_int ?d = ?d - 2 ^ 64" using lo hi by (rule wrap_int_high)
    then show ?thesis using hi by simp
  qed
  have "\<not> limit > int (length h)" using assms by simp
  then show ?thesis
    using bad by (simp add: trimVersionHistory_def go_slice_def)
qed

lemma trim_pinned_absent:
  assumes "0 \<le> limit" and "is_int limit" and "version \<noteq> []"
    and "version \<notin> vv_Version ` set h"
  shows "trimVersionHistory h limit version = Returns []"
proof -
  have i: "versionIndexFrom 0 h version = - 1"
    using assms(4) by (rule versionIndexFrom_absent)
  have "is_int (- 1 - limit)" using assms by (simp add: is_int_def)
  then have w: "wrap_int (- 1 - limit) = - 1 - limit" by (rule wrap_int_id)
  have z: "wrap_int 0 = 0" by (simp add: wrap_int_id is_int_def)
  show ?thesis
    using assms(1,3) by (simp add: trimVersionHistory_def i w z go_slice_def)
qed

lemma trim_pinned_present:
  assumes "0 \<le> limit" and "is_int limit" and "int (length h) < 2 ^ 63" and "version \<noteq> []"
    and "version \<in> vv_Version ` set h"
  shows "trimVersionHistory h limit version =
           Returns (drop (nat (versionIndexFrom 0 h version) - nat limit)
                      (take (Suc (nat (versionIndexFrom 0 h version))) h))"
    and "nat (versionIndexFrom 0 h version) < length h"
    and "vv_Version (h ! nat (versionIndexFrom 0 h version)) = version"
proof -
  let ?i = "versionIndexFrom 0 h version"
  from versionIndexFrom_present [OF assms(5), of 0]
  have i0: "0 \<le> ?i" and iv: "vv_Version (h ! nat ?i) = version" by simp_all
  from versionIndexFrom_bounds [of 0 h version]
  have ilt: "?i < int (length h)" by simp
  show "nat ?i < length h" using i0 ilt by linarith
  show "vv_Version (h ! nat ?i) = version" by (rule iv)
  have "is_int (?i + 1)" using i0 ilt assms(3) by (simp add: is_int_def)
  then have w1: "wrap_int (?i + 1) = ?i + 1" by (rule wrap_int_id)
  have "is_int (?i - limit)" using i0 ilt assms(1,2,3) by (simp add: is_int_def)
  then have w2: "wrap_int (?i - limit) = ?i - limit" by (rule wrap_int_id)
  define start where "start = (if ?i - limit < 0 then 0 else ?i - limit)"
  have s: "0 \<le> start" "start \<le> ?i + 1" using assms(1) i0 by (simp_all add: start_def)
  have ns: "nat start = nat ?i - nat limit" using assms(1) i0 by (auto simp: start_def)
  have n1: "nat (?i + 1) = Suc (nat ?i)" using i0 by simp
  have "trimVersionHistory h limit version = go_slice h start (?i + 1)"
    using assms(4) by (simp add: trimVersionHistory_def w1 w2 start_def Let_def)
  also have "\<dots> = Returns (take (nat (?i + 1) - nat start) (drop (nat start) h))"
    using s ilt by (intro go_slice_ok) simp_all
  also have "\<dots> = Returns (drop (nat ?i - nat limit) (take (Suc (nat ?i)) h))"
    by (simp only: ns n1 drop_take)
  finally show "trimVersionHistory h limit version =
           Returns (drop (nat ?i - nat limit) (take (Suc (nat ?i)) h))" .
qed

section \<open>Properties of parsing\<close>

lemma unsupported_message_names:
  "sublist contentType (unsupportedContentTypeMessage certName version contentType)"
  "sublist PKCS12ContentType (unsupportedContentTypeMessage certName version contentType)"
  "sublist PEMContentType (unsupportedContentTypeMessage certName version contentType)"
proof -
  let ?m = "unsupportedContentTypeMessage certName version contentType"
  have "?m = (''certificate '' @ certName @ '' version '' @ version
               @ '', unsupported secret content type '') @ contentType
             @ ('', supported type are '' @ PKCS12ContentType @ '' and '' @ PEMContentType)"
    by (simp add: unsupportedContentTypeMessage_def)
  then show "sublist contentType ?m"
    unfolding sublist_def by blast
  have "?m = (''certificate '' @ certName @ '' version '' @ version
               @ '', unsupported secret content type '' @ contentType
               @ '', supported type are '') @ PKCS12ContentType @ ('' and '' @ PEMContentType)"
    by (simp add: unsupportedContentTypeMessage_def)
  then show "sublist PKCS12ContentType ?m"
    unfolding sublist_def by blast
  have "?m = (''certificate '' @ certName @ '' version '' @ version
               @ '', unsupported secret content type '' @ contentType
               @ '', supported type are '' @ PKCS12ContentType @ '' and '') @ PEMContentType @ []"
    by (simp add: unsupportedContentTypeMessage_def)
  then show "sublist PEMContentType ?m"
    unfolding sublist_def by blast
qed

section \<open>Properties of the object loops\<close>

lemma processCertificates_append:
  "processCertificates s L (xs @ ys) st =
     (case processCertificates s L xs st of
        (Done, st') \<Rightarrow> processCertificates s L ys st'
      | (Failed err, st') \<Rightarrow> (Failed err, st')
      | (Panicked p, st') \<Rightarrow> (Panicked p, st'))"
  by (induction xs arbitrary: st) (auto split: prod.splits outcome.splits)

lemma processCertificates_stops_at:
  assumes "processCertificates s L pre st = (Done, st1)"
    and "processCertificate s L keyVaultCert st1 = (r, st2)" and "r \<noteq> Done"
  shows "processCertificates s L (pre @ keyVaultCert # post) st = (r, st2)"
  using assms by (cases r) (simp_all add: processCertificates_append)

lemma processCertificates_not_Done:
  "fst (processCertificates s L xs st) \<noteq> Done \<Longrightarrow>
     \<exists>pre keyVaultCert post st1.
        xs = pre @ keyVaultCert # post
        \<and> processCertificates s L pre st = (Done, st1)
        \<and> fst (processCertificate s L keyVaultCert st1) \<noteq> Done"
proof (induction xs arbitrary: st)
  case Nil
  then show ?case by simp
next
  case (Cons x xs)
  obtain r st' where step: "processCertificate s L x st = (r, st')"
    by (cases "processCertificate s L x st")
  show ?case
  proof (cases "r = Done")
    case True
    with step Cons.prems have "fst (processCertificates s L xs st') \<noteq> Done" by simp
    from Cons.IH [OF this] obtain pre k post st1 where
      "xs = pre @ k # post" "processCertificates s L pre st' = (Done, st1)"
      "fst (processCertificate s L k st1) \<noteq> Done" by blast
    then have "x # xs = (x # pre) @ k # post
        \<and> processCertificates s L (x # pre) st = (Done, st1)
        \<and> fst (processCertificate s L k st1) \<noteq> Done"
      using step True by simp
    then show ?thesis by blast
  next
    case False
    then have "x # xs = [] @ x # xs \<and> processCertificates s L [] st = (Done, st)
        \<and> fst (processCertificate s L x st) \<noteq> Done"
      using step by simp
    then show ?thesis by blast
  qed
qed

lemma processKeys_append:
  "processKeys s L (xs @ ys) st =
     (case processKeys s L xs st of
        (Done, st') \<Rightarrow> processKeys s L ys st'
      | (Failed err, st') \<Rightarrow> (Failed err, st')
      | (Panicked p, st') \<Rightarrow> (Panicked p, st'))"
  by (induction xs arbitrary: st) (auto split: prod.splits outcome.splits)

lemma processKeys_stops_at:
  assumes "processKeys s L pre st = (Done, st1)"
    and "processKey s L keyVaultKey st1 = (r, st2)" and "r \<noteq> Done"
  shows "processKeys s L (pre @ keyVaultKey # post) st = (r, st2)"
  using assms by (cases r) (simp_all add: processKeys_append)

lemma processKeys_not_Done:
  "fst (processKeys s L xs st) \<noteq> Done \<Longrightarrow>
     \<exists>pre keyVaultKey post st1.
        xs = pre @ keyVaultKey # post
        \<and> processKeys s L pre st = (Done, st1)
        \<and> fst (processKey s L keyVaultKey st1) \<noteq> Done"
proof (induction xs arbitrary: st)
  case Nil
  then show ?case by simp
next
  case (Cons x xs)
  obtain r st' where step: "processKey s L x st = (r, st')"
    by (cases "processKey s L x st")
  show ?case
  proof (cases "r = Done")
    case True
    with step Cons.prems have "fst (processKeys s L xs st') \<noteq> Done" by simp
    from Cons.IH [OF this] obtain pre k post st1 where
      "xs = pre @ k # post" "processKeys s L pre st' = (Done, st1)"
      "fst (processKey s L k st1) \<noteq> Done" by blast
    then have "x # xs = (x # pre) @ k # post
        \<and> processKeys s L (x # pre) st = (Done, st1)
        \<and> fst (processKey s L k st1) \<noteq> Done"
      using step True by simp
    then show ?thesis by blast
  next
    case False
    then have "x # xs = [] @ x # xs \<and> processKeys s L [] st = (Done, st)
        \<and> fst (processKey s L x st) \<noteq> Done"
      using step by simp
    then show ?thesis by blast
  qed
qed

lemma GetCertificates_Failed:
  "processCertificates s L (certificates s) (init_state w) = (Failed err, st) \<Longrightarrow>
     GetCertificates s L w = (Returns (None, None, Some err), world_of st)"
  by (simp add: GetCertificates_def)

lemma GetCertificates_Done:
  "processCertificates s L (certificates s) (init_state w) = (Done, st) \<Longrightarrow>
     GetCertificates s L w =
       (Returns (Some (materialMap st), Some (getStatusMap (statusList st) CertificatesStatus), None),
        world_of st)"
  by (simp add: GetCertificates_def)

lemma GetKeys_Failed:
  "processKeys s L (keys s) (init_state w) = (Failed err, st) \<Longrightarrow>
     GetKeys s L w = (Returns (None, None, Some err), world_of st)"
  by (simp add: GetKeys_def)

lemma GetKeys_Done:
  "processKeys s L (keys s) (init_state w) = (Done, st) \<Longrightarrow>
     GetKeys s L w =
       (Returns (Some (materialMap st), Some (getStatusMap (statusList st) KeysStatus), None),
        world_of st)"
  by (simp add: GetKeys_def)

lemma processCertificates_single:
  "fst (processCertificate s L x st) = Done \<Longrightarrow>
     processCertificates s L [x] st = (Done, snd (processCertificate s L x st))"
  by (cases "processCertificate s L x st") simp

lemma processKeys_single:
  "fst (processKey s L x st) = Done \<Longrightarrow>
     processKeys s L [x] st = (Done, snd (processKey s L x st))"
  by (cases "processKey s L x st") simp

section \<open>Properties of the version-history path\<close>

lemma processCertificate_nonzero_limit:
  "kv_VersionHistoryLimit keyVaultCert \<noteq> 0 \<Longrightarrow>
     processCertificate s L keyVaultCert st =
       processCertificateVersions s L keyVaultCert (timeNow L (clock st)) (st\<lparr>clock := Suc (clock st)\<rparr>)"
  by (simp add: processCertificate_def Let_def)

lemma processKey_nonzero_limit:
  "kv_VersionHistoryLimit keyVaultKey \<noteq> 0 \<Longrightarrow>
     processKey s L keyVaultKey st =
       processKeyVersions s L keyVaultKey (timeNow L (clock st)) (st\<lparr>clock := Suc (clock st)\<rparr>)"
  by (simp add: processKey_def Let_def)

lemma processCertificateVersions_trim_panics:
  "fetchCertificateVersionHistory s L (kv_Name keyVaultCert) = (Inr h, ws) \<Longrightarrow>
   trimVersionHistory h (kv_VersionHistoryLimit keyVaultCert) (kv_Version keyVaultCert) = Panics p \<Longrightarrow>
     processCertificateVersions s L keyVaultCert startTime st = (Panicked p, st\<lparr>logged := logged st @ ws\<rparr>)"
  by (simp add: processCertificateVersions_def Let_def)

lemma processKeyVersions_trim_panics:
  "fetchKeyVersionHistory s L (kv_Name keyVaultKey) = (Inr h, ws) \<Longrightarrow>
   trimVersionHistory h (kv_VersionHistoryLimit keyVaultKey) (kv_Version keyVaultKey) = Panics p \<Longrightarrow>
     processKeyVersions s L keyVaultKey startTime st = (Panicked p, st\<lparr>logged := logged st @ ws\<rparr>)"
  by (simp add: processKeyVersions_def Let_def)

lemma processCertificateVersions_trim_empty:
  "fetchCertificateVersionHistory s L (kv_Name keyVaultCert) = (Inr h, ws) \<Longrightarrow>
   trimVersionHistory h (kv_VersionHistoryLimit keyVaultCert) (kv_Version keyVaultCert) = Returns [] \<Longrightarrow>
     processCertificateVersions s L keyVaultCert startTime st =
       (Done, st\<lparr>logged := logged st @ ws @ [NoCertificateVersions (kv_Name keyVaultCert)]\<rparr>)"
  by (simp add: processCertificateVersions_def Let_def)

lemma processKeyVersions_trim_empty:
  "fetchKeyVersionHistory s L (kv_Name keyVaultKey) = (Inr h, ws) \<Longrightarrow>
   trimVersionHistory h (kv_VersionHistoryLimit keyVaultKey) (kv_Version keyVaultKey) = Returns [] \<Longrightarrow>
     processKeyVersions s L keyVaultKey startTime st =
       (Done, st\<lparr>logged := logged st @ ws @ [NoKeyVersions (kv_Name keyVaultKey)]\<rparr>)"
  by (simp add: processKeyVersions_def Let_def)

section \<open>Properties of the disabled-secret check and of disabled versions\<close>

lemma isSecretDisabledError_True_iff:
  "isSecretDisabledError err = Returns True \<longleftrightarrow>
     (\<exists>azureError. errorsAs err = Some (StatusForbidden, Some (BodyJSON azureError))
        \<and> ae_Code azureError = ''Forbidden'' \<and> ae_InnerErrorCode azureError = ''SecretDisabled'')"
  by (auto simp: isSecretDisabledError_def split: option.splits http_body.splits prod.splits)

lemma isSecretDisabledError_returns:
  "errorsAs err \<noteq> Some (StatusForbidden, None) \<Longrightarrow>
     \<exists>disabled. isSecretDisabledError err = Returns disabled"
  by (auto simp: isSecretDisabledError_def split: option.splits http_body.splits prod.splits)

lemma processCertificate_zero_limit:
  "kv_VersionHistoryLimit keyVaultCert = 0 \<Longrightarrow>
     processCertificate s L keyVaultCert st =
       processCertificateVersion s L keyVaultCert (timeNow L (clock st)) (st\<lparr>clock := Suc (clock st)\<rparr>)"
  by (simp add: processCertificate_def Let_def)

text \<open>
  Where a disabled version is handled: the certificate-metadata fallback, the
  single-version key path and both version-history loops record a disabled status
  entry, delete the map key from the shared store and leave the map alone. Hence
  \<^verbatim>\<open>GetKeys\<close> never returns material under a disabled map key, and \<^verbatim>\<open>GetCertificates\<close> does
  not either as long as no secret bundle fetched successfully is flagged disabled.
\<close>

lemma handleDisabledSecret_disabled:
  assumes "GetCertificate s (kv_Name keyVaultCert) (kv_Version keyVaultCert) = Inr certBundle"
    and "cb_Attributes certBundle = Some a" and "at_Enabled a = Some False"
    and "cb_ID certBundle = Some ident"
  shows "handleDisabledSecret s L keyVaultCert startTime st =
           (Done, st\<lparr>statusList := statusList st
                        @ [getStatusProperty (kv_Name keyVaultCert) (ID_Version L ident) startTime False],
                      sharedStore := DeleteCertificateFromMap (resource s)
                        \<lparr>mk_Name = kv_Name keyVaultCert, mk_Version = ID_Version L ident,
                          mk_Enabled = False\<rparr> (sharedStore st)\<rparr>)"
  using assms by (simp add: handleDisabledSecret_def isValidCertificateBundle_def Let_def)

lemma processKeyVersion_disabled:
  assumes "GetKey s (kv_Name keyVaultKey) (kv_Version keyVaultKey) = Inr keyBundle"
    and "kb_Attributes keyBundle = Some a" and "at_Enabled a = Some False"
    and "kb_Key keyBundle = Some webKey" and "jwk_KID webKey = Some kid"
  shows "processKeyVersion s L keyVaultKey startTime st =
           (Done, st\<lparr>statusList := statusList st
                        @ [getStatusProperty (kv_Name keyVaultKey) (getObjectVersion kid) startTime False],
                      sharedStore := DeleteKeyFromMap (resource s)
                        \<lparr>mk_Name = kv_Name keyVaultKey, mk_Version = getObjectVersion kid,
                          mk_Enabled = False\<rparr> (sharedStore st)\<rparr>)"
  using assms by (simp add: processKeyVersion_def isValidKeyBundle_def Let_def)

lemma certificateVersionsLoop_disabled_step:
  "\<not> vv_Enabled certVersion \<Longrightarrow>
     certificateVersionsLoop s L keyVaultCert startTime (certVersion # versions) st =
       certificateVersionsLoop s L keyVaultCert startTime versions
         (st\<lparr>statusList := statusList st
                @ [getStatusProperty (kv_Name keyVaultCert) (vv_Version certVersion) startTime False],
              sharedStore := DeleteCertificateFromMap (resource s)
                \<lparr>mk_Name = kv_Name keyVaultCert, mk_Version = vv_Version certVersion,
                  mk_Enabled = False\<rparr> (sharedStore st)\<rparr>)"
  by simp

lemma keyVersionsLoop_disabled_step:
  "\<not> vv_Enabled keyVersion \<Longrightarrow>
     keyVersionsLoop s L keyVaultKey startTime (keyVersion # versions) st =
       keyVersionsLoop s L keyVaultKey startTime versions
         (st\<lparr>statusList := statusList st
                @ [getStatusProperty (kv_Name keyVaultKey) (vv_Version keyVersion) startTime False],
              sharedStore := DeleteKeyFromMap (resource s)
                \<lparr>mk_Name = kv_Name keyVaultKey, mk_Version = vv_Version keyVersion,
                  mk_Enabled = False\<rparr> (sharedStore st)\<rparr>)"
  by simp

lemma certificateVersionsLoop_enabled_only:
  "\<forall>k\<in>dom (materialMap st). mk_Enabled k \<Longrightarrow>
     \<forall>k\<in>dom (materialMap (snd (certificateVersionsLoop s L keyVaultCert startTime versions st))).
        mk_Enabled k"
proof (induction versions arbitrary: st)
  case Nil
  then show ?case by simp
next
  case (Cons v vs)
  show ?case
  proof (cases "vv_Enabled v")
    case False
    have "\<forall>k\<in>dom (materialMap (snd (certificateVersionsLoop s L keyVaultCert startTime vs
           (st\<lparr>statusList := statusList st
                  @ [getStatusProperty (kv_Name keyVaultCert) (vv_Version v) startTime False],
                sharedStore := DeleteCertificateFromMap (resource s)
                  \<lparr>mk_Name = kv_Name keyVaultCert, mk_Version = vv_Version v,
                    mk_Enabled = False\<rparr> (sharedStore st)\<rparr>)))). mk_Enabled k"
      using Cons.prems by (intro Cons.IH) simp
    then show ?thesis using False by simp
  next
    case True
    show ?thesis
    proof (cases "GetSecret s (kv_Name keyVaultCert) (vv_Version v)")
      case (Inl err)
      then show ?thesis using True Cons.prems by simp
    next
      case (Inr secretBundle)
      show ?thesis
      proof (cases "isValidSecretBundle secretBundle")
        case False
        have "\<forall>k\<in>dom (materialMap (snd (certificateVersionsLoop s L keyVaultCert startTime vs
               (st\<lparr>logged := logged st
                      @ [InvalidSecretBundle (kv_Name keyVaultCert) (vv_Version v)]\<rparr>)))). mk_Enabled k"
          using Cons.prems by (intro Cons.IH) simp
        then show ?thesis using True Inr False by simp
      next
        case valid: True
        obtain r ws clk where g: "getCertsFromSecretBundle L (clock st) secretBundle
            (kv_Name keyVaultCert) (vv_Enabled v) = (r, ws, clk)"
          by (cases "getCertsFromSecretBundle L (clock st) secretBundle
            (kv_Name keyVaultCert) (vv_Enabled v)") auto
        show ?thesis
        proof (cases r)
          case (Panics p)
          then show ?thesis using True Inr valid g Cons.prems by simp
        next
          case (Returns res)
          obtain cr cp e where res: "res = (cr, cp, e)" by (cases res) auto
          show ?thesis
          proof (cases e)
            case None
            have "\<forall>k\<in>dom (materialMap (snd (certificateVersionsLoop s L keyVaultCert startTime vs
                 (st\<lparr>logged := logged st @ ws, clock := Suc clk,
                     statusList := statusList st @ sliceOf cp,
                     materialMap := (materialMap st)
                       (\<lparr>mk_Name = kv_Name keyVaultCert, mk_Version = vv_Version v,
                         mk_Enabled = True\<rparr> \<mapsto> sliceOf cr)\<rparr>)))). mk_Enabled k"
              using Cons.prems by (intro Cons.IH) (auto split: if_splits)
            then show ?thesis using True Inr valid g Returns res None by simp
          next
            case (Some err)
            then show ?thesis using True Inr valid g Returns res Cons.prems by simp
          qed
        qed
      qed
    qed
  qed
qed

lemma keyVersionsLoop_enabled_only:
  "\<forall>k\<in>dom (materialMap st). mk_Enabled k \<Longrightarrow>
     \<forall>k\<in>dom (materialMap (snd (keyVersionsLoop s L keyVaultKey startTime versions st))).
        mk_Enabled k"
proof (induction versions arbitrary: st)
  case Nil
  then show ?case by simp
next
  case (Cons v vs)
  show ?case
  proof (cases "vv_Enabled v")
    case False
    have "\<forall>k\<in>dom (materialMap (snd (keyVersionsLoop s L keyVaultKey startTime vs
           (st\<lparr>statusList := statusList st
                  @ [getStatusProperty (kv_Name keyVaultKey) (vv_Version v) startTime False],
                sharedStore := DeleteKeyFromMap (resource s)
                  \<lparr>mk_Name = kv_Name keyVaultKey, mk_Version = vv_Version v,
                    mk_Enabled = False\<rparr> (sharedStore st)\<rparr>)))). mk_Enabled k"
      using Cons.prems by (intro Cons.IH) simp
    then show ?thesis using False by simp
  next
    case True
    show ?thesis
    proof (cases "GetKey s (kv_Name keyVaultKey) (vv_Version v)")
      case (Inl err)
      then show ?thesis using True Cons.prems by simp
    next
      case (Inr keyBundle)
      show ?thesis
      proof (cases "isValidKeyBundle keyBundle")
        case False
        have "\<forall>k\<in>dom (materialMap (snd (keyVersionsLoop s L keyVaultKey startTime vs
               (st\<lparr>logged := logged st
                      @ [InvalidKeyBundle (kv_Name keyVaultKey) (vv_Version v)]\<rparr>)))). mk_Enabled k"
          using Cons.prems by (intro Cons.IH) simp
        then show ?thesis using True Inr False by simp
      next
        case valid: True
        show ?thesis
        proof (cases "getKeyFromKeyBundle L keyBundle")
          case (Inl err)
          then show ?thesis using True Inr valid Cons.prems by simp
        next
          case pk: (Inr publicKey)
          have "\<forall>k\<in>dom (materialMap (snd (keyVersionsLoop s L keyVaultKey startTime vs
               (st\<lparr>materialMap := (materialMap st)
                       (\<lparr>mk_Name = kv_Name keyVaultKey, mk_Version = vv_Version v,
                         mk_Enabled = True\<rparr> \<mapsto> publicKey),
                   clock := Suc (clock st),
                   statusList := statusList st
                     @ [getStatusProperty (kv_Name keyVaultKey) (vv_Version v)
                          (timeNow L (clock st)) True]\<rparr>)))). mk_Enabled k"
            using Cons.prems by (intro Cons.IH) (auto split: if_splits)
          then show ?thesis using True Inr valid pk by simp
        qed
      qed
    qed
  qed
qed

lemma processKeyVersion_enabled_only:
  "\<forall>k\<in>dom (materialMap st). mk_Enabled k \<Longrightarrow>
     \<forall>k\<in>dom (materialMap (snd (processKeyVersion s L keyVaultKey startTime st))). mk_Enabled k"
  by (auto simp: processKeyVersion_def Let_def split: sum.splits option.splits if_splits)

lemma processKeyVersions_enabled_only:
  "\<forall>k\<in>dom (materialMap st). mk_Enabled k \<Longrightarrow>
     \<forall>k\<in>dom (materialMap (snd (processKeyVersions s L keyVaultKey startTime st))). mk_Enabled k"
proof -
  assume a: "\<forall>k\<in>dom (materialMap st). mk_Enabled k"
  obtain r ws where f: "fetchKeyVersionHistory s L (kv_Name keyVaultKey) = (r, ws)"
    by (cases "fetchKeyVersionHistory s L (kv_Name keyVaultKey)")
  show ?thesis
  proof (cases r)
    case (Inl err)
    then show ?thesis using a f by (simp add: processKeyVersions_def)
  next
    case (Inr h)
    show ?thesis
    proof (cases "trimVersionHistory h (kv_VersionHistoryLimit keyVaultKey) (kv_Version keyVaultKey)")
      case (Panics p)
      then show ?thesis using a f Inr by (simp add: processKeyVersions_def)
    next
      case (Returns trimmed)
      have "\<forall>k\<in>dom (materialMap (snd (keyVersionsLoop s L keyVaultKey startTime trimmed
              (st\<lparr>logged := logged st @ ws\<rparr>)))). mk_Enabled k"
        using a by (intro keyVersionsLoop_enabled_only) simp
      then show ?thesis using a f Inr Returns by (simp add: processKeyVersions_def Let_def)
    qed
  qed
qed

lemma processKey_enabled_only:
  "\<forall>k\<in>dom (materialMap st). mk_Enabled k \<Longrightarrow>
     \<forall>k\<in>dom (materialMap (snd (processKey s L keyVaultKey st))). mk_Enabled k"
proof -
  assume a: "\<forall>k\<in>dom (materialMap st). mk_Enabled k"
  then have b: "\<forall>k\<in>dom (materialMap (st\<lparr>clock := Suc (clock st)\<rparr>)). mk_Enabled k"
    by simp
  show ?thesis
    using processKeyVersion_enabled_only [OF b, of s L keyVaultKey "timeNow L (clock st)"]
      processKeyVersions_enabled_only [OF b, of s L keyVaultKey "timeNow L (clock st)"]
    by (simp add: processKey_def Let_def)
qed

lemma processKeys_enabled_only:
  "\<forall>k\<in>dom (materialMap st). mk_Enabled k \<Longrightarrow>
     \<forall>k\<in>dom (materialMap (snd (processKeys s L ks st))). mk_Enabled k"
proof (induction ks arbitrary: st)
  case Nil
  then show ?case by simp
next
  case (Cons x xs)
  obtain r st' where step: "processKey s L x st = (r, st')"
    by (cases "processKey s L x st")
  have inv: "\<forall>k\<in>dom (materialMap st'). mk_Enabled k"
    using processKey_enabled_only [OF Cons.prems, of s L x] step by simp
  show ?case
    using step inv Cons.IH [OF inv] by (cases r) simp_all
qed

lemma GetKeys_enabled_only:
  assumes "fst (GetKeys s L w) = Returns (Some keysMap, keysStatus, err)"
  shows "\<forall>k\<in>dom keysMap. mk_Enabled k"
proof -
  obtain r st where p: "processKeys s L (keys s) (init_state w) = (r, st)"
    by (cases "processKeys s L (keys s) (init_state w)")
  have "\<forall>k\<in>dom (materialMap (init_state w)). mk_Enabled k"
    by (simp add: init_state_def)
  from processKeys_enabled_only [OF this, of s L "keys s"] p
  have inv: "\<forall>k\<in>dom (materialMap st). mk_Enabled k" by simp
  from assms p have "keysMap = materialMap st"
    by (cases r) (simp_all add: GetKeys_def)
  with inv show ?thesis by simp
qed

lemma handleDisabledSecret_map_unchanged:
  "materialMap (snd (handleDisabledSecret s L keyVaultCert startTime st)) = materialMap st"
  by (simp add: handleDisabledSecret_def Let_def split: sum.splits)

lemma processCertificateVersion_enabled_only:
  assumes "\<forall>k\<in>dom (materialMap st). mk_Enabled k"
    and "\<forall>name version secretBundle a.
           GetSecret s name version = Inr secretBundle \<and> sb_Attributes secretBundle = Some a
           \<longrightarrow> at_Enabled a \<noteq> Some False"
  shows "\<forall>k\<in>dom (materialMap (snd (processCertificateVersion s L keyVaultCert startTime st))).
           mk_Enabled k"
proof (cases "GetSecret s (kv_Name keyVaultCert) (kv_Version keyVaultCert)")
  case (Inl err)
  show ?thesis
  proof (cases "isSecretDisabledError err")
    case (Panics p)
    then show ?thesis using Inl assms(1) by (simp add: processCertificateVersion_def)
  next
    case (Returns disabled)
    then show ?thesis
      using Inl assms(1)
      by (simp add: processCertificateVersion_def handleDisabledSecret_map_unchanged)
  qed
next
  case (Inr secretBundle)
  show ?thesis
  proof (cases "isValidSecretBundle secretBundle")
    case False
    then show ?thesis using Inr assms(1) by (simp add: processCertificateVersion_def)
  next
    case True
    then obtain a b where a: "sb_Attributes secretBundle = Some a" "at_Enabled a = Some b"
      by (auto simp: isValidSecretBundle_def split: option.splits)
    with assms(2) Inr have "b" by (cases b) auto
    then have en: "the (at_Enabled (the (sb_Attributes secretBundle)))" using a by simp
    obtain r ws clk where g: "getCertsFromSecretBundle L (clock st) secretBundle
        (kv_Name keyVaultCert) True = (r, ws, clk)"
      by (cases "getCertsFromSecretBundle L (clock st) secretBundle (kv_Name keyVaultCert) True") auto
    show ?thesis
      using Inr True en g assms(1)
      by (auto simp: processCertificateVersion_def Let_def
          split: may_panic.splits option.splits prod.splits if_splits)
  qed
qed

lemma processCertificateVersions_enabled_only:
  "\<forall>k\<in>dom (materialMap st). mk_Enabled k \<Longrightarrow>
     \<forall>k\<in>dom (materialMap (snd (processCertificateVersions s L keyVaultCert startTime st))).
        mk_Enabled k"
proof -
  assume a: "\<forall>k\<in>dom (materialMap st). mk_Enabled k"
  obtain r ws where f: "fetchCertificateVersionHistory s L (kv_Name keyVaultCert) = (r, ws)"
    by (cases "fetchCertificateVersionHistory s L (kv_Name keyVaultCert)")
  show ?thesis
  proof (cases r)
    case (Inl err)
    then show ?thesis using a f by (simp add: processCertificateVersions_def)
  next
    case (Inr h)
    show ?thesis
    proof (cases "trimVersionHistory h (kv_VersionHistoryLimit keyVaultCert) (kv_Version keyVaultCert)")
      case (Panics p)
      then show ?thesis using a f Inr by (simp add: processCertificateVersions_def)
    next
      case (Returns trimmed)
      have "\<forall>k\<in>dom (materialMap (snd (certificateVersionsLoop s L keyVaultCert startTime trimmed
              (st\<lparr>logged := logged st @ ws\<rparr>)))). mk_Enabled k"
        using a by (intro certificateVersionsLoop_enabled_only) simp
      then show ?thesis using a f Inr Returns by (simp add: processCertificateVersions_def Let_def)
    qed
  qed
qed

lemma processCertificates_enabled_only:
  assumes "\<forall>name version secretBundle a.
           GetSecret s name version = Inr secretBundle \<and> sb_Attributes secretBundle = Some a
           \<longrightarrow> at_Enabled a \<noteq> Some False"
  shows "\<forall>k\<in>dom (materialMap st). mk_Enabled k \<Longrightarrow>
     \<forall>k\<in>dom (materialMap (snd (processCertificates s L cs st))). mk_Enabled k"
proof (induction cs arbitrary: st)
  case Nil
  then show ?case by simp
next
  case (Cons x xs)
  obtain r st' where step: "processCertificate s L x st = (r, st')"
    by (cases "processCertificate s L x st")
  from Cons.prems have b: "\<forall>k\<in>dom (materialMap (st\<lparr>clock := Suc (clock st)\<rparr>)). mk_Enabled k"
    by simp
  have inv: "\<forall>k\<in>dom (materialMap st'). mk_Enabled k"
    using processCertificateVersion_enabled_only [OF b assms, of L x "timeNow L (clock st)"]
      processCertificateVersions_enabled_only [OF b, of s L x "timeNow L (clock st)"] step
    by (simp add: processCertificate_def Let_def split: if_splits)
  show ?case
    using step inv Cons.IH [OF inv] by (cases r) simp_all
qed

lemma GetCertificates_enabled_only:
  assumes "\<forall>name version secretBundle a.
           GetSecret s name version = Inr secretBundle \<and> sb_Attributes secretBundle = Some a
           \<longrightarrow> at_Enabled a \<noteq> Some False"
    and "fst (GetCertificates s L w) = Returns (Some certsMap, certsStatus, err)"
  shows "\<forall>k\<in>dom certsMap. mk_Enabled k"
proof -
  obtain r st where p: "processCertificates s L (certificates s) (init_state w) = (r, st)"
    by (cases "processCertificates s L (certificates s) (init_state w)")
  have "\<forall>k\<in>dom (materialMap (init_state w)). mk_Enabled k"
    by (simp add: init_state_def)
  from processCertificates_enabled_only [OF assms(1) this, of L "certificates s"] p
  have inv: "\<forall>k\<in>dom (materialMap st). mk_Enabled k" by simp
  from assms(2) p have "certsMap = materialMap st"
    by (cases r) (simp_all add: GetCertificates_def)
  with inv show ?thesis by simp
qed

section \<open>Claims about the version-history window\<close>

text \<open>
  C3. For every version history, every limit \<open>\<ge> 0\<close> and every pinned (non-empty)
  version that occurs in the history, \<^verbatim>\<open>trimVersionHistory\<close> returns a window whose last
  element is the entry of the pinned version and whose length never exceeds
  \<open>limit + 1\<close>: the window extends backward from the pinned version's index by up to
  \<open>limit\<close> entries, clamped at index 0. The history need not even be sorted. The limit
  and the length are those of a Go \<^verbatim>\<open>int\<close>.
\<close>

theorem trimVersionHistory_pinned_window:
  assumes "0 \<le> limit" and "is_int limit" and "int (length h) < 2 ^ 63"
    and "version \<noteq> []" and "version \<in> vv_Version ` set h"
  shows "let i = nat (versionIndexFrom 0 h version);
             w = drop (i - nat limit) (take (Suc i) h)
         in trimVersionHistory h limit version = Returns w
            \<and> i < length h \<and> w \<noteq> [] \<and> last w = h ! i \<and> vv_Version (last w) = version
            \<and> length w = min (nat limit) i + 1 \<and> int (length w) \<le> limit + 1"
proof -
  define i where "i = nat (versionIndexFrom 0 h version)"
  define w where "w = drop (i - nat limit) (take (Suc i) h)"
  note facts = trim_pinned_present [OF assms]
  have t: "trimVersionHistory h limit version = Returns w"
    using facts(1) by (simp add: w_def i_def)
  have il: "i < length h" using facts(2) by (simp add: i_def)
  have iv: "vv_Version (h ! i) = version" using facts(3) by (simp add: i_def)
  have len: "length w = min (nat limit) i + 1"
    using il by (auto simp: w_def min_def)
  then have ne: "w \<noteq> []" by auto
  have "last w = last (take (Suc i) h)"
    unfolding w_def using il by (intro last_drop) simp
  also have "\<dots> = h ! i"
    using il by (simp add: take_Suc_conv_app_nth)
  finally have lw: "last w = h ! i" .
  have "min (nat limit) i \<le> nat limit" by simp
  then have bound: "int (length w) \<le> limit + 1"
    using len assms(1) by linarith
  show ?thesis
    unfolding Let_def i_def [symmetric] w_def [symmetric]
    using t il ne lw iv len bound by simp
qed

theorem trimVersionHistory_pinned_window_witness:
  "0 \<le> (1::int) \<and> is_int 1 \<and> ''v2'' \<in> vv_Version `
        set [\<lparr>vv_Version = ''v1'', vv_Created = 10, vv_Enabled = True\<rparr>,
             \<lparr>vv_Version = ''v2'', vv_Created = 20, vv_Enabled = False\<rparr>,
             \<lparr>vv_Version = ''v3'', vv_Created = 30, vv_Enabled = True\<rparr>]
   \<and> trimVersionHistory
        [\<lparr>vv_Version = ''v1'', vv_Created = 10, vv_Enabled = True\<rparr>,
         \<lparr>vv_Version = ''v2'', vv_Created = 20, vv_Enabled = False\<rparr>,
         \<lparr>vv_Version = ''v3'', vv_Created = 30, vv_Enabled = True\<rparr>] 1 ''v2''
       = Returns [\<lparr>vv_Version = ''v1'', vv_Created = 10, vv_Enabled = True\<rparr>,
                  \<lparr>vv_Version = ''v2'', vv_Created = 20, vv_Enabled = False\<rparr>]"
  using trimVersionHistory_pinned_window
    [of 1 "[\<lparr>vv_Version = ''v1'', vv_Created = 10, vv_Enabled = True\<rparr>,
            \<lparr>vv_Version = ''v2'', vv_Created = 20, vv_Enabled = False\<rparr>,
            \<lparr>vv_Version = ''v3'', vv_Created = 30, vv_Enabled = True\<rparr>]" "''v2''"]
  by (simp add: is_int_def Let_def)

text \<open>
  C4. Sorting a version history ascending by creation time and then trimming it with
  the limit equal to its length and no pinned version (the empty version string)
  returns the whole sorted sequence, in the same order; more generally, with no pinned
  version and a limit \<open>\<ge> 0\<close>, the result is the last \<open>min(limit, len(history))\<close>
  entries. This holds for the empty history as well.
\<close>

theorem trimVersionHistory_unpinned_suffix:
  assumes "0 \<le> limit" and "int (length h) < 2 ^ 63"
  shows "trimVersionHistory (Sort h) (int (length h)) [] = Returns (Sort h)
         \<and> trimVersionHistory h limit [] = Returns (drop (length h - min (nat limit) (length h)) h)
         \<and> length (drop (length h - min (nat limit) (length h)) h) = min (nat limit) (length h)"
proof -
  have ls: "length (Sort h) = length h" by (simp add: Sort_def)
  have "trimVersionHistory (Sort h) (int (length (Sort h))) []
          = Returns (drop (length (Sort h) - min (nat (int (length (Sort h)))) (length (Sort h))) (Sort h))"
    using assms(2) by (intro trim_unpinned) (simp_all add: ls)
  then have a: "trimVersionHistory (Sort h) (int (length h)) [] = Returns (Sort h)"
    by (simp add: ls)
  have b: "trimVersionHistory h limit [] = Returns (drop (length h - min (nat limit) (length h)) h)"
    using assms by (rule trim_unpinned)
  show ?thesis using a b by simp
qed

theorem trimVersionHistory_unpinned_suffix_witness:
  "0 \<le> (2::int)
   \<and> trimVersionHistory
        (Sort [\<lparr>vv_Version = ''v3'', vv_Created = 30, vv_Enabled = True\<rparr>,
               \<lparr>vv_Version = ''v1'', vv_Created = 10, vv_Enabled = True\<rparr>,
               \<lparr>vv_Version = ''v2'', vv_Created = 20, vv_Enabled = False\<rparr>]) 3 []
       = Returns [\<lparr>vv_Version = ''v1'', vv_Created = 10, vv_Enabled = True\<rparr>,
                  \<lparr>vv_Version = ''v2'', vv_Created = 20, vv_Enabled = False\<rparr>,
                  \<lparr>vv_Version = ''v3'', vv_Created = 30, vv_Enabled = True\<rparr>]
   \<and> trimVersionHistory
        [\<lparr>vv_Version = ''v3'', vv_Created = 30, vv_Enabled = True\<rparr>,
         \<lparr>vv_Version = ''v1'', vv_Created = 10, vv_Enabled = True\<rparr>,
         \<lparr>vv_Version = ''v2'', vv_Created = 20, vv_Enabled = False\<rparr>] 2 []
       = Returns [\<lparr>vv_Version = ''v1'', vv_Created = 10, vv_Enabled = True\<rparr>,
                  \<lparr>vv_Version = ''v2'', vv_Created = 20, vv_Enabled = False\<rparr>]"
  using trimVersionHistory_unpinned_suffix
    [of 2 "[\<lparr>vv_Version = ''v3'', vv_Created = 30, vv_Enabled = True\<rparr>,
            \<lparr>vv_Version = ''v1'', vv_Created = 10, vv_Enabled = True\<rparr>,
            \<lparr>vv_Version = ''v2'', vv_Created = 20, vv_Enabled = False\<rparr>]"]
  by (simp add: Sort_def)

section \<open>Claims about parsing a secret bundle\<close>

text \<open>
  C6. For every secret bundle whose declared content type is neither
  "application/x-pkcs12" nor "application/x-pem-file", \<^verbatim>\<open>getCertsFromSecretBundle\<close> fails
  with an error whose message names the offending content type and both supported
  content types, and returns neither certificates nor status entries. The bundle has an
  id, as every bundle that passes \<^verbatim>\<open>isValidSecretBundle\<close> in the two callers has; the
  version in the message is read from it.
\<close>

theorem getCertsFromSecretBundle_unsupported_content_type:
  assumes "sb_ID secretBundle = Some ident"
    and "sb_ContentType secretBundle = Some contentType"
    and "contentType \<noteq> PKCS12ContentType" and "contentType \<noteq> PEMContentType"
  shows "getCertsFromSecretBundle L clk secretBundle certName enabled =
           (Returns (None, None,
              Some (RatifyError ErrorCodeCertInvalid None
                (unsupportedContentTypeMessage certName (getObjectVersion ident) contentType))),
            [], clk)
         \<and> sublist contentType
              (unsupportedContentTypeMessage certName (getObjectVersion ident) contentType)
         \<and> sublist PKCS12ContentType
              (unsupportedContentTypeMessage certName (getObjectVersion ident) contentType)
         \<and> sublist PEMContentType
              (unsupportedContentTypeMessage certName (getObjectVersion ident) contentType)"
  using assms
  by (simp add: getCertsFromSecretBundle_def unsupported_message_names)

theorem getCertsFromSecretBundle_unsupported_content_type_witness:
  "''text'' \<noteq> PKCS12ContentType \<and> ''text'' \<noteq> PEMContentType
   \<and> getCertsFromSecretBundle testLibs 0
        \<lparr>sb_Attributes = None, sb_ContentType = Some ''text'',
         sb_ID = Some ''https://notarycerts.vault.azure.net/secrets/testCert6212/431ad135'',
         sb_Value = Some ''text''\<rparr> ''certName'' True
     = (Returns (None, None,
          Some (RatifyError ErrorCodeCertInvalid None
            ''certificate certName version 431ad135, unsupported secret content type text, supported type are application/x-pkcs12 and application/x-pem-file'')),
        [], 0)"
  using getCertsFromSecretBundle_unsupported_content_type
    [of "\<lparr>sb_Attributes = None, sb_ContentType = Some ''text'',
         sb_ID = Some ''https://notarycerts.vault.azure.net/secrets/testCert6212/431ad135'',
         sb_Value = Some ''text''\<rparr>"
        "''https://notarycerts.vault.azure.net/secrets/testCert6212/431ad135''"
        "''text''" testLibs 0 "''certName''" True]
  by (simp add: PKCS12ContentType_def PEMContentType_def unsupportedContentTypeMessage_def
      getObjectVersion_def)


text \<open>
  C5. For every secret bundle whose PEM stream (the value itself, or the PEM encoding of
  the PKCS#12 blocks) consists of one private-key block followed by two certificate
  blocks, each encoding one certificate, \<^verbatim>\<open>getCertsFromSecretBundle\<close> returns exactly the
  two certificates and two status entries and no error; the private-key block only
  leaves a warning.
\<close>

theorem getCertsFromSecretBundle_key_and_two_certificates:
  assumes "sb_ID secretBundle = Some ident"
    and "sb_ContentType secretBundle = Some contentType"
    and "sb_Value secretBundle = Some val"
    and "(contentType = PEMContentType \<and> data = val)
         \<or> (contentType = PKCS12ContentType \<and> base64_DecodeString L val = Inr p12
             \<and> pkcs12_ToPEM L p12 = Inr blocks
             \<and> data = concat (map (pem_EncodeToMemory L) blocks))"
    and "pem_Decode L data = ([keyBlock, certBlock1, certBlock2], [])"
    and "pb_Type keyBlock = ''PRIVATE KEY''"
    and "pb_Type certBlock1 = ''CERTIFICATE''"
    and "pb_Type certBlock2 = ''CERTIFICATE''"
    and "DecodeCertificates L (pem_EncodeToMemory L certBlock1) = Inr [cert1]"
    and "DecodeCertificates L (pem_EncodeToMemory L certBlock2) = Inr [cert2]"
  shows "getCertsFromSecretBundle L clk secretBundle certName enabled =
           (Returns (Some [cert1, cert2],
                     Some [getStatusProperty certName (getObjectVersion ident) (timeNow L clk) enabled,
                           getStatusProperty certName (getObjectVersion ident) (timeNow L clk) enabled],
                     None),
            [PrivateKeySkipped certName (getObjectVersion ident)], Suc clk)"
proof -
  have w: "walkBlocks L certName (getObjectVersion ident) (timeNow L clk) enabled
             [keyBlock, certBlock1, certBlock2] [] [] [] []
           = ((Some [cert1, cert2],
               Some [getStatusProperty certName (getObjectVersion ident) (timeNow L clk) enabled,
                     getStatusProperty certName (getObjectVersion ident) (timeNow L clk) enabled],
               None),
              [PrivateKeySkipped certName (getObjectVersion ident)])"
    using assms(6-10) by (simp add: blockStep_def)
  from assms(4) show ?thesis
  proof
    assume "contentType = PEMContentType \<and> data = val"
    then show ?thesis
      using assms(1-3,5)
      by (simp add: getCertsFromSecretBundle_def PKCS12ContentType_def PEMContentType_def w
          del: walkBlocks.simps)
  next
    assume "contentType = PKCS12ContentType \<and> base64_DecodeString L val = Inr p12
             \<and> pkcs12_ToPEM L p12 = Inr blocks
             \<and> data = concat (map (pem_EncodeToMemory L) blocks)"
    then show ?thesis
      using assms(1-3,5)
      by (simp add: getCertsFromSecretBundle_def w del: walkBlocks.simps)
  qed
qed

theorem getCertsFromSecretBundle_key_and_two_certificates_witness:
  "getCertsFromSecretBundle testLibs 0
      (testSecret ''https://kv/secrets/certA/v1'' True ''KEY+CERT1+CERT2'') ''certA'' True
   = (Returns (Some [''c1'', ''c2''],
               Some [getStatusProperty ''certA'' ''v1'' ''T'' True,
                     getStatusProperty ''certA'' ''v1'' ''T'' True],
               None),
      [PrivateKeySkipped ''certA'' ''v1''], Suc 0)"
  using getCertsFromSecretBundle_key_and_two_certificates
    [of "testSecret ''https://kv/secrets/certA/v1'' True ''KEY+CERT1+CERT2''"
        "''https://kv/secrets/certA/v1''" PEMContentType "''KEY+CERT1+CERT2''"
        "''KEY+CERT1+CERT2''" testLibs "[]" "[]"
        "\<lparr>pb_Type = ''PRIVATE KEY'', pb_Bytes = ''k''\<rparr>"
        "\<lparr>pb_Type = ''CERTIFICATE'', pb_Bytes = ''c1''\<rparr>"
        "\<lparr>pb_Type = ''CERTIFICATE'', pb_Bytes = ''c2''\<rparr>"
        "''c1''" "''c2''" 0 "''certA''" True]
  by (simp add: testSecret_def testLibs_def getObjectVersion_def)

section \<open>Claims about the fetch calls\<close>

text \<open>
  C7. If processing any single configured object fails with an error (the objects before
  it having been processed without one), the whole \<^verbatim>\<open>GetCertificates\<close> call, and likewise
  the whole \<^verbatim>\<open>GetKeys\<close> call, returns \<^verbatim>\<open>nil\<close> for the map, \<^verbatim>\<open>nil\<close> for the status document,
  and that error; and when no object fails or panics, the call returns a map and a
  status document and no error.
\<close>

theorem fetch_all_or_nothing:
  "(certificates s = pre @ keyVaultCert # post
      \<and> processCertificates s L pre (init_state w) = (Done, st1)
      \<and> processCertificate s L keyVaultCert st1 = (Failed err, st2)
    \<longrightarrow> fst (GetCertificates s L w) = Returns (None, None, Some err))
   \<and> (keys s = kpre @ keyVaultKey # kpost
      \<and> processKeys s L kpre (init_state kw) = (Done, kst1)
      \<and> processKey s L keyVaultKey kst1 = (Failed kerr, kst2)
    \<longrightarrow> fst (GetKeys s L kw) = Returns (None, None, Some kerr))
   \<and> ((\<forall>pre' c post' st'. certificates s' = pre' @ c # post'
          \<and> processCertificates s' L' pre' (init_state w') = (Done, st')
          \<longrightarrow> fst (processCertificate s' L' c st') = Done)
    \<longrightarrow> (\<exists>certsMap certsStatus.
          fst (GetCertificates s' L' w')
            = Returns (Some certsMap, Some (getStatusMap certsStatus CertificatesStatus), None)))
   \<and> ((\<forall>pre' k post' st'. keys s' = pre' @ k # post'
          \<and> processKeys s' L' pre' (init_state kw') = (Done, st')
          \<longrightarrow> fst (processKey s' L' k st') = Done)
    \<longrightarrow> (\<exists>keysMap keysStatus.
          fst (GetKeys s' L' kw')
            = Returns (Some keysMap, Some (getStatusMap keysStatus KeysStatus), None)))"
proof (intro conjI impI)
  assume a: "certificates s = pre @ keyVaultCert # post
      \<and> processCertificates s L pre (init_state w) = (Done, st1)
      \<and> processCertificate s L keyVaultCert st1 = (Failed err, st2)"
  then have "processCertificates s L (certificates s) (init_state w) = (Failed err, st2)"
    using processCertificates_stops_at [of s L pre "init_state w" st1 keyVaultCert "Failed err" st2 post]
    by simp
  then show "fst (GetCertificates s L w) = Returns (None, None, Some err)"
    by (simp add: GetCertificates_Failed)
next
  assume a: "keys s = kpre @ keyVaultKey # kpost
      \<and> processKeys s L kpre (init_state kw) = (Done, kst1)
      \<and> processKey s L keyVaultKey kst1 = (Failed kerr, kst2)"
  then have "processKeys s L (keys s) (init_state kw) = (Failed kerr, kst2)"
    using processKeys_stops_at [of s L kpre "init_state kw" kst1 keyVaultKey "Failed kerr" kst2 kpost]
    by simp
  then show "fst (GetKeys s L kw) = Returns (None, None, Some kerr)"
    by (simp add: GetKeys_Failed)
next
  assume all: "\<forall>pre' c post' st'. certificates s' = pre' @ c # post'
          \<and> processCertificates s' L' pre' (init_state w') = (Done, st')
          \<longrightarrow> fst (processCertificate s' L' c st') = Done"
  have "fst (processCertificates s' L' (certificates s') (init_state w')) = Done"
  proof (rule ccontr)
    assume "fst (processCertificates s' L' (certificates s') (init_state w')) \<noteq> Done"
    from processCertificates_not_Done [OF this] all show False by blast
  qed
  then obtain st where "processCertificates s' L' (certificates s') (init_state w') = (Done, st)"
    by (cases "processCertificates s' L' (certificates s') (init_state w')") simp
  then have "fst (GetCertificates s' L' w')
      = Returns (Some (materialMap st), Some (getStatusMap (statusList st) CertificatesStatus), None)"
    by (simp add: GetCertificates_Done)
  then show "\<exists>certsMap certsStatus. fst (GetCertificates s' L' w')
            = Returns (Some certsMap, Some (getStatusMap certsStatus CertificatesStatus), None)"
    by blast
next
  assume all: "\<forall>pre' k post' st'. keys s' = pre' @ k # post'
          \<and> processKeys s' L' pre' (init_state kw') = (Done, st')
          \<longrightarrow> fst (processKey s' L' k st') = Done"
  have "fst (processKeys s' L' (keys s') (init_state kw')) = Done"
  proof (rule ccontr)
    assume "fst (processKeys s' L' (keys s') (init_state kw')) \<noteq> Done"
    from processKeys_not_Done [OF this] all show False by blast
  qed
  then obtain st where "processKeys s' L' (keys s') (init_state kw') = (Done, st)"
    by (cases "processKeys s' L' (keys s') (init_state kw')") simp
  then have "fst (GetKeys s' L' kw')
      = Returns (Some (materialMap st), Some (getStatusMap (statusList st) KeysStatus), None)"
    by (simp add: GetKeys_Done)
  then show "\<exists>keysMap keysStatus. fst (GetKeys s' L' kw')
            = Returns (Some keysMap, Some (getStatusMap keysStatus KeysStatus), None)"
    by blast
qed

theorem fetch_all_or_nothing_witness:
  "fst (GetCertificates
          (testProvider [object ''certA'' [] 0, object ''missing'' [] 0]
                        [object ''keyA'' [] 0, object ''missing'' [] 0])
          testLibs emptyWorld)
     = Returns (None, None,
         Some (Errorf ''failed to get secret objectName:missing, objectVersion:, error: ''
                 (ClientError (OtherError ''secret not found''))))
   \<and> fst (GetKeys
          (testProvider [object ''certA'' [] 0, object ''missing'' [] 0]
                        [object ''keyA'' [] 0, object ''missing'' [] 0])
          testLibs emptyWorld)
     = Returns (None, None,
         Some (Errorf ''failed to get key objectName:missing, objectVersion:, error: ''
                 (ClientError (OtherError ''key not found''))))
   \<and> (\<exists>certsMap certsStatus.
         fst (GetCertificates (testProvider [object ''certA'' [] 0] [object ''keyA'' [] 0])
                testLibs emptyWorld)
           = Returns (Some certsMap, Some (getStatusMap certsStatus CertificatesStatus), None))
   \<and> (\<exists>keysMap keysStatus.
         fst (GetKeys (testProvider [object ''certA'' [] 0] [object ''keyA'' [] 0])
                testLibs emptyWorld)
           = Returns (Some keysMap, Some (getStatusMap keysStatus KeysStatus), None))"
proof -
  let ?s = "testProvider [object ''certA'' [] 0, object ''missing'' [] 0]
                         [object ''keyA'' [] 0, object ''missing'' [] 0]"
  let ?s' = "testProvider [object ''certA'' [] 0] [object ''keyA'' [] 0]"
  let ?w = "emptyWorld :: string list world"
  let ?kw = "emptyWorld :: string world"
  let ?cerr = "Errorf ''failed to get secret objectName:missing, objectVersion:, error: ''
                 (ClientError (OtherError ''secret not found''))"
  let ?kerr = "Errorf ''failed to get key objectName:missing, objectVersion:, error: ''
                 (ClientError (OtherError ''key not found''))"
  let ?st1 = "snd (processCertificate ?s testLibs (object ''certA'' [] 0) (init_state ?w))"
  let ?kst1 = "snd (processKey ?s testLibs (object ''keyA'' [] 0) (init_state ?kw))"
  have c1: "fst (processCertificate (testProvider cs ks) testLibs (object ''certA'' [] 0) st) = Done"
    for cs ks and st :: "string list fetch_state"
    by (simp add: processCertificate_def processCertificateVersion_def testProvider_def
        testSecret_def isValidSecretBundle_def getCertsFromSecretBundle_def blockStep_def
        PEMContentType_def PKCS12ContentType_def testLibs_def object_def Let_def)
  have c2: "fst (processCertificate (testProvider cs ks) testLibs (object ''missing'' [] 0) st) = Failed ?cerr"
    for cs ks and st :: "string list fetch_state"
    by (simp add: processCertificate_def processCertificateVersion_def testProvider_def
        isSecretDisabledError_def object_def Let_def)
  have k1: "fst (processKey (testProvider cs ks) testLibs (object ''keyA'' [] 0) st) = Done"
    for cs ks and st :: "string fetch_state"
    by (simp add: processKey_def processKeyVersion_def testProvider_def
        isValidKeyBundle_def getKeyFromKeyBundle_def testLibs_def object_def Let_def)
  have k2: "fst (processKey (testProvider cs ks) testLibs (object ''missing'' [] 0) st) = Failed ?kerr"
    for cs ks and st :: "string fetch_state"
    by (simp add: processKey_def processKeyVersion_def testProvider_def object_def Let_def)
  have sel: "certificates (testProvider cs ks) = cs" "keys (testProvider cs ks) = ks" for cs ks
    by (simp_all add: testProvider_def)
  have h1: "certificates ?s = [object ''certA'' [] 0] @ object ''missing'' [] 0 # []
      \<and> processCertificates ?s testLibs [object ''certA'' [] 0] (init_state ?w) = (Done, ?st1)
      \<and> processCertificate ?s testLibs (object ''missing'' [] 0) ?st1
          = (Failed ?cerr, snd (processCertificate ?s testLibs (object ''missing'' [] 0) ?st1))"
    using processCertificates_single [OF c1] c2 by (simp add: sel prod_eq_iff)
  have h2: "keys ?s = [object ''keyA'' [] 0] @ object ''missing'' [] 0 # []
      \<and> processKeys ?s testLibs [object ''keyA'' [] 0] (init_state ?kw) = (Done, ?kst1)
      \<and> processKey ?s testLibs (object ''missing'' [] 0) ?kst1
          = (Failed ?kerr, snd (processKey ?s testLibs (object ''missing'' [] 0) ?kst1))"
    using processKeys_single [OF k1] k2 by (simp add: sel prod_eq_iff)
  have h3: "\<forall>pre' c post' st'. certificates ?s' = pre' @ c # post'
          \<and> processCertificates ?s' testLibs pre' (init_state ?w) = (Done, st')
          \<longrightarrow> fst (processCertificate ?s' testLibs c st') = Done"
    using c1 by (auto simp: sel Cons_eq_append_conv)
  have h4: "\<forall>pre' k post' st'. keys ?s' = pre' @ k # post'
          \<and> processKeys ?s' testLibs pre' (init_state ?kw) = (Done, st')
          \<longrightarrow> fst (processKey ?s' testLibs k st') = Done"
    using k1 by (auto simp: sel Cons_eq_append_conv)
  note inst = fetch_all_or_nothing
    [of ?s "[object ''certA'' [] 0]" "object ''missing'' [] 0" "[]" testLibs ?w ?st1 ?cerr
        "snd (processCertificate ?s testLibs (object ''missing'' [] 0) ?st1)"
        "[object ''keyA'' [] 0]" "object ''missing'' [] 0" "[]" ?kw ?kst1 ?kerr
        "snd (processKey ?s testLibs (object ''missing'' [] 0) ?kst1)"
        ?s' testLibs ?w ?kw]
  from inst h1 h2 h3 h4 show ?thesis by blast
qed

section \<open>Claims about the refresher registry\<close>

text \<open>
  C8. \<^verbatim>\<open>Register\<close> panics when the factory is \<^verbatim>\<open>nil\<close> or the name is already registered,
  whereas \<^verbatim>\<open>CreateRefresherFromConfig\<close> does not panic on a failed lookup: for every
  configuration whose "type" entry is absent, not a string, or empty it returns the
  error "refresher type cannot be empty", and for every type string with no registered
  factory it returns the error "refresher factory with name ... not found". Both are
  plain error values made by \<^verbatim>\<open>fmt.Errorf\<close>, told apart by their message.
\<close>

theorem refresher_registry_errors:
  "Register name None refresherFactories = Panics (PanicMsg ''refresher factory cannot be nil'')
   \<and> (refresherFactories name = Some registered
        \<longrightarrow> Register name (Some factory) refresherFactories
            = Panics (PanicMsg (''refresher factory named '' @ name @ '' already registered'')))
   \<and> (refresherConfig ''type'' = None
        \<or> (\<forall>t. refresherConfig ''type'' \<noteq> Some (StringValue t))
        \<or> refresherConfig ''type'' = Some (StringValue [])
        \<longrightarrow> CreateRefresherFromConfig refresherFactories refresherConfig
            = Inl (PlainError ''refresher type cannot be empty''))
   \<and> (refresherConfig' ''type'' = Some (StringValue refresherType) \<and> refresherType \<noteq> []
        \<and> refresherFactories refresherType = None
        \<longrightarrow> CreateRefresherFromConfig refresherFactories refresherConfig'
            = Inl (PlainError (''refresher factory with name '' @ refresherType @ '' not found'')))"
proof (intro conjI impI)
  show "Register name None refresherFactories = Panics (PanicMsg ''refresher factory cannot be nil'')"
    by (simp add: Register_def)
next
  assume "refresherFactories name = Some registered"
  then show "Register name (Some factory) refresherFactories
            = Panics (PanicMsg (''refresher factory named '' @ name @ '' already registered''))"
    by (simp add: Register_def)
next
  assume a: "refresherConfig ''type'' = None
        \<or> (\<forall>t. refresherConfig ''type'' \<noteq> Some (StringValue t))
        \<or> refresherConfig ''type'' = Some (StringValue [])"
  have "typeAssertString (refresherConfig ''type'') = ([], False)
        \<or> typeAssertString (refresherConfig ''type'') = ([], True)"
    using a by (auto simp: typeAssertString_def split: option.splits config_value.splits)
  then show "CreateRefresherFromConfig refresherFactories refresherConfig
            = Inl (PlainError ''refresher type cannot be empty'')"
    by (auto simp: CreateRefresherFromConfig_def)
next
  assume "refresherConfig' ''type'' = Some (StringValue refresherType) \<and> refresherType \<noteq> []
        \<and> refresherFactories refresherType = None"
  then show "CreateRefresherFromConfig refresherFactories refresherConfig'
            = Inl (PlainError (''refresher factory with name '' @ refresherType @ '' not found''))"
    by (simp add: CreateRefresherFromConfig_def typeAssertString_def)
qed

theorem refresher_registry_errors_witness:
  "Register ''mockRefresher'' (Some (\<lambda>config. ''mock'')) [''mockRefresher'' \<mapsto> (\<lambda>config. ''mock'')]
     = Panics (PanicMsg ''refresher factory named mockRefresher already registered'')
   \<and> CreateRefresherFromConfig [''mockRefresher'' \<mapsto> (\<lambda>config. ''mock'')]
        [''type'' \<mapsto> BoolValue True]
     = Inl (PlainError ''refresher type cannot be empty'')
   \<and> CreateRefresherFromConfig [''mockRefresher'' \<mapsto> (\<lambda>config. ''mock'')]
        [''shouldError'' \<mapsto> BoolValue True]
     = Inl (PlainError ''refresher type cannot be empty'')
   \<and> CreateRefresherFromConfig [''mockRefresher'' \<mapsto> (\<lambda>config. ''mock'')]
        [''type'' \<mapsto> StringValue []]
     = Inl (PlainError ''refresher type cannot be empty'')
   \<and> CreateRefresherFromConfig [''mockRefresher'' \<mapsto> (\<lambda>config. ''mock'')]
        [''type'' \<mapsto> StringValue ''invalidRefresher'']
     = Inl (PlainError ''refresher factory with name invalidRefresher not found'')"
  using refresher_registry_errors
      [of "''mockRefresher''" "[''mockRefresher'' \<mapsto> (\<lambda>config. ''mock'')]"
          "\<lambda>config. ''mock''" "\<lambda>config. ''mock''" "[''type'' \<mapsto> BoolValue True]"
          "[''type'' \<mapsto> StringValue ''invalidRefresher'']" "''invalidRefresher''"]
    refresher_registry_errors
      [of "''mockRefresher''" "[''mockRefresher'' \<mapsto> (\<lambda>config. ''mock'')]"
          "\<lambda>config. ''mock''" "\<lambda>config. ''mock''" "[''shouldError'' \<mapsto> BoolValue True]"
          "[''type'' \<mapsto> StringValue ''invalidRefresher'']" "''invalidRefresher''"]
    refresher_registry_errors
      [of "''mockRefresher''" "[''mockRefresher'' \<mapsto> (\<lambda>config. ''mock'')]"
          "\<lambda>config. ''mock''" "\<lambda>config. ''mock''" "[''type'' \<mapsto> StringValue []]"
          "[''type'' \<mapsto> StringValue ''invalidRefresher'']" "''invalidRefresher''"]
  by simp

section \<open>Claims about limits and pinned versions outside the window\<close>

text \<open>
  C9. \<^verbatim>\<open>trimVersionHistory\<close> is not total in its limit: for every non-empty version
  history and every negative limit, the call with no pinned version panics on its slice
  expression, since the limit is clamped from above only and \<open>len(history) - limit\<close>
  lies beyond the history's length (as a 64-bit \<^verbatim>\<open>int\<close> the difference may wrap around
  to a negative index, which the slice expression rejects all the same). A negative
  \<^verbatim>\<open>versionHistoryLimit\<close> is routed to this path for certificates and keys alike, only \<open>0\<close>
  selecting the single-version path, so processing that object panics.
\<close>

theorem trimVersionHistory_negative_limit_panics:
  assumes "h \<noteq> []" and "limit < 0" and "is_int limit" and "int (length h) < 2 ^ 63"
  shows "trimVersionHistory h limit [] = Panics SliceBoundsOutOfRange
         \<and> int (length h) < int (length h) - limit
         \<and> (kv_VersionHistoryLimit keyVaultCert = limit \<longrightarrow>
              processCertificate s L keyVaultCert st =
                processCertificateVersions s L keyVaultCert (timeNow L (clock st))
                  (st\<lparr>clock := Suc (clock st)\<rparr>))
         \<and> (kv_VersionHistoryLimit keyVaultCert = limit \<and> kv_Version keyVaultCert = []
              \<and> fetchCertificateVersionHistory s L (kv_Name keyVaultCert) = (Inr h, ws) \<longrightarrow>
              fst (processCertificate s L keyVaultCert st) = Panicked SliceBoundsOutOfRange)
         \<and> (kv_VersionHistoryLimit keyVaultKey = limit \<longrightarrow>
              processKey s L keyVaultKey kst =
                processKeyVersions s L keyVaultKey (timeNow L (clock kst))
                  (kst\<lparr>clock := Suc (clock kst)\<rparr>))
         \<and> (kv_VersionHistoryLimit keyVaultKey = limit \<and> kv_Version keyVaultKey = []
              \<and> fetchKeyVersionHistory s L (kv_Name keyVaultKey) = (Inr h, kws) \<longrightarrow>
              fst (processKey s L keyVaultKey kst) = Panicked SliceBoundsOutOfRange)"
proof -
  have p: "trimVersionHistory h limit [] = Panics SliceBoundsOutOfRange"
    using assms by (rule trim_negative_panics)
  have nz: "limit \<noteq> 0" using assms(2) by simp
  show ?thesis
  proof (intro conjI impI)
    show "trimVersionHistory h limit [] = Panics SliceBoundsOutOfRange" by (rule p)
    show "int (length h) < int (length h) - limit" using assms(2) by simp
  next
    assume "kv_VersionHistoryLimit keyVaultCert = limit"
    then show "processCertificate s L keyVaultCert st =
                processCertificateVersions s L keyVaultCert (timeNow L (clock st))
                  (st\<lparr>clock := Suc (clock st)\<rparr>)"
      using nz by (intro processCertificate_nonzero_limit) simp
  next
    assume a: "kv_VersionHistoryLimit keyVaultCert = limit \<and> kv_Version keyVaultCert = []
              \<and> fetchCertificateVersionHistory s L (kv_Name keyVaultCert) = (Inr h, ws)"
    then have "processCertificate s L keyVaultCert st =
                processCertificateVersions s L keyVaultCert (timeNow L (clock st))
                  (st\<lparr>clock := Suc (clock st)\<rparr>)"
      using nz by (intro processCertificate_nonzero_limit) simp
    moreover have "trimVersionHistory h (kv_VersionHistoryLimit keyVaultCert)
        (kv_Version keyVaultCert) = Panics SliceBoundsOutOfRange"
      using a p by simp
    ultimately show "fst (processCertificate s L keyVaultCert st) = Panicked SliceBoundsOutOfRange"
      using a by (simp add: processCertificateVersions_trim_panics)
  next
    assume "kv_VersionHistoryLimit keyVaultKey = limit"
    then show "processKey s L keyVaultKey kst =
                processKeyVersions s L keyVaultKey (timeNow L (clock kst))
                  (kst\<lparr>clock := Suc (clock kst)\<rparr>)"
      using nz by (intro processKey_nonzero_limit) simp
  next
    assume a: "kv_VersionHistoryLimit keyVaultKey = limit \<and> kv_Version keyVaultKey = []
              \<and> fetchKeyVersionHistory s L (kv_Name keyVaultKey) = (Inr h, kws)"
    then have "processKey s L keyVaultKey kst =
                processKeyVersions s L keyVaultKey (timeNow L (clock kst))
                  (kst\<lparr>clock := Suc (clock kst)\<rparr>)"
      using nz by (intro processKey_nonzero_limit) simp
    moreover have "trimVersionHistory h (kv_VersionHistoryLimit keyVaultKey)
        (kv_Version keyVaultKey) = Panics SliceBoundsOutOfRange"
      using a p by simp
    ultimately show "fst (processKey s L keyVaultKey kst) = Panicked SliceBoundsOutOfRange"
      using a by (simp add: processKeyVersions_trim_panics)
  qed
qed

theorem trimVersionHistory_negative_limit_panics_witness:
  "[\<lparr>vv_Version = ''v1'', vv_Created = 10, vv_Enabled = True\<rparr>] \<noteq> []
   \<and> (- 1 :: int) < 0 \<and> is_int (- 1)
   \<and> trimVersionHistory [\<lparr>vv_Version = ''v1'', vv_Created = 10, vv_Enabled = True\<rparr>] (- 1) []
       = Panics SliceBoundsOutOfRange
   \<and> fst (processCertificate (testProvider [] []) testLibs (object ''certA'' [] (- 1))
            (init_state (emptyWorld :: string list world)))
       = Panicked SliceBoundsOutOfRange
   \<and> fst (processKey (testProvider [] []) testLibs (object ''keyA'' [] (- 1))
            (init_state (emptyWorld :: string world)))
       = Panicked SliceBoundsOutOfRange"
proof -
  let ?h = "[\<lparr>vv_Version = ''v1'', vv_Created = 10, vv_Enabled = True\<rparr>]"
  have fc: "fetchCertificateVersionHistory (testProvider [] []) testLibs ''certA'' = (Inr ?h, [])"
    by (simp add: fetchCertificateVersionHistory_def testProvider_def testLibs_def
        isValidCertificateItem_def getObjectVersion_def Sort_def)
  have fk: "fetchKeyVersionHistory (testProvider [] []) testLibs ''keyA'' = (Inr ?h, [])"
    by (simp add: fetchKeyVersionHistory_def testProvider_def testLibs_def
        isValidKeyItem_def getObjectVersion_def Sort_def)
  have hyps: "?h \<noteq> []" "(- 1 :: int) < 0" "is_int (- 1)" "int (length ?h) < 2 ^ 63"
    by (simp_all add: is_int_def)
  note inst = trimVersionHistory_negative_limit_panics
    [OF hyps, of "object ''certA'' [] (- 1)" "testProvider [] []" testLibs
        "init_state (emptyWorld :: string list world)" "[]"
        "object ''keyA'' [] (- 1)" "init_state (emptyWorld :: string world)" "[]"]
  have pc: "kv_VersionHistoryLimit (object ''certA'' [] (- 1)) = - 1
      \<and> kv_Version (object ''certA'' [] (- 1)) = []
      \<and> fetchCertificateVersionHistory (testProvider [] []) testLibs
            (kv_Name (object ''certA'' [] (- 1))) = (Inr ?h, [])"
    using fc by (simp add: object_def)
  have pk: "kv_VersionHistoryLimit (object ''keyA'' [] (- 1)) = - 1
      \<and> kv_Version (object ''keyA'' [] (- 1)) = []
      \<and> fetchKeyVersionHistory (testProvider [] []) testLibs
            (kv_Name (object ''keyA'' [] (- 1))) = (Inr ?h, [])"
    using fk by (simp add: object_def)
  from inst pc pk hyps show ?thesis by blast
qed

text \<open>
  C10. For every version history, every limit \<open>\<ge> 0\<close> and every non-empty pinned version
  that does not occur in the history, \<^verbatim>\<open>trimVersionHistory\<close> returns the empty history;
  \<^verbatim>\<open>processCertificateVersions\<close> and \<^verbatim>\<open>processKeyVersions\<close> then log a warning and return
  \<^verbatim>\<open>nil\<close>, leaving the map, the status list and the shared store as they were, and the
  fetch call goes on with the remaining objects (it succeeds with an empty map when this
  is the only object).
\<close>

theorem trimVersionHistory_pinned_absent_is_empty:
  assumes "0 \<le> limit" and "is_int limit" and "version \<noteq> []"
    and "version \<notin> vv_Version ` set h"
  shows "trimVersionHistory h limit version = Returns []
         \<and> (kv_VersionHistoryLimit keyVaultCert = limit \<and> kv_Version keyVaultCert = version
              \<and> fetchCertificateVersionHistory s L (kv_Name keyVaultCert) = (Inr h, ws) \<longrightarrow>
              processCertificateVersions s L keyVaultCert startTime st =
                (Done, st\<lparr>logged := logged st @ ws @ [NoCertificateVersions (kv_Name keyVaultCert)]\<rparr>)
              \<and> (limit \<noteq> 0 \<longrightarrow>
                   processCertificates s L (keyVaultCert # others) st =
                     processCertificates s L others
                       (st\<lparr>clock := Suc (clock st),
                           logged := logged st @ ws @ [NoCertificateVersions (kv_Name keyVaultCert)]\<rparr>))
              \<and> (limit \<noteq> 0 \<and> certificates s = [keyVaultCert] \<longrightarrow>
                   fst (GetCertificates s L w) =
                     Returns (Some Map.empty, Some (getStatusMap [] CertificatesStatus), None)))
         \<and> (kv_VersionHistoryLimit keyVaultKey = limit \<and> kv_Version keyVaultKey = version
              \<and> fetchKeyVersionHistory s L (kv_Name keyVaultKey) = (Inr h, kws) \<longrightarrow>
              processKeyVersions s L keyVaultKey startTime kst =
                (Done, kst\<lparr>logged := logged kst @ kws @ [NoKeyVersions (kv_Name keyVaultKey)]\<rparr>)
              \<and> (limit \<noteq> 0 \<longrightarrow>
                   processKeys s L (keyVaultKey # kothers) kst =
                     processKeys s L kothers
                       (kst\<lparr>clock := Suc (clock kst),
                            logged := logged kst @ kws @ [NoKeyVersions (kv_Name keyVaultKey)]\<rparr>))
              \<and> (limit \<noteq> 0 \<and> keys s = [keyVaultKey] \<longrightarrow>
                   fst (GetKeys s L kw) =
                     Returns (Some Map.empty, Some (getStatusMap [] KeysStatus), None)))"
proof -
  have e: "trimVersionHistory h limit version = Returns []"
    using assms by (rule trim_pinned_absent)
  have certs: "processCertificateVersions s L keyVaultCert t st' =
        (Done, st'\<lparr>logged := logged st' @ ws @ [NoCertificateVersions (kv_Name keyVaultCert)]\<rparr>)"
    if "kv_VersionHistoryLimit keyVaultCert = limit \<and> kv_Version keyVaultCert = version
        \<and> fetchCertificateVersionHistory s L (kv_Name keyVaultCert) = (Inr h, ws)"
    for t and st' :: "'a list fetch_state"
    using that e by (intro processCertificateVersions_trim_empty) simp_all
  have ks: "processKeyVersions s L keyVaultKey t st' =
        (Done, st'\<lparr>logged := logged st' @ kws @ [NoKeyVersions (kv_Name keyVaultKey)]\<rparr>)"
    if "kv_VersionHistoryLimit keyVaultKey = limit \<and> kv_Version keyVaultKey = version
        \<and> fetchKeyVersionHistory s L (kv_Name keyVaultKey) = (Inr h, kws)"
    for t and st' :: "'b fetch_state"
    using that e by (intro processKeyVersions_trim_empty) simp_all
  show ?thesis
  proof (intro conjI impI)
    show "trimVersionHistory h limit version = Returns []" by (rule e)
  next
    assume a: "kv_VersionHistoryLimit keyVaultCert = limit \<and> kv_Version keyVaultCert = version
        \<and> fetchCertificateVersionHistory s L (kv_Name keyVaultCert) = (Inr h, ws)"
    show "processCertificateVersions s L keyVaultCert startTime st =
        (Done, st\<lparr>logged := logged st @ ws @ [NoCertificateVersions (kv_Name keyVaultCert)]\<rparr>)"
      using a by (rule certs)
    {
      assume nz: "limit \<noteq> 0"
      then have step: "processCertificate s L keyVaultCert st' =
          (Done, st'\<lparr>clock := Suc (clock st'),
                     logged := logged st' @ ws @ [NoCertificateVersions (kv_Name keyVaultCert)]\<rparr>)"
        for st' :: "'a list fetch_state"
        using a by (simp add: processCertificate_nonzero_limit certs [OF a])
      show "processCertificates s L (keyVaultCert # others) st =
                     processCertificates s L others
                       (st\<lparr>clock := Suc (clock st),
                           logged := logged st @ ws @ [NoCertificateVersions (kv_Name keyVaultCert)]\<rparr>)"
        by (simp add: step)
    }
    {
      assume b: "limit \<noteq> 0 \<and> certificates s = [keyVaultCert]"
      then have step: "processCertificate s L keyVaultCert st' =
          (Done, st'\<lparr>clock := Suc (clock st'),
                     logged := logged st' @ ws @ [NoCertificateVersions (kv_Name keyVaultCert)]\<rparr>)"
        for st' :: "'a list fetch_state"
        using a by (simp add: processCertificate_nonzero_limit certs [OF a])
      show "fst (GetCertificates s L w) =
              Returns (Some Map.empty, Some (getStatusMap [] CertificatesStatus), None)"
        using b by (simp add: GetCertificates_def step init_state_def)
    }
  next
    assume a: "kv_VersionHistoryLimit keyVaultKey = limit \<and> kv_Version keyVaultKey = version
        \<and> fetchKeyVersionHistory s L (kv_Name keyVaultKey) = (Inr h, kws)"
    show "processKeyVersions s L keyVaultKey startTime kst =
        (Done, kst\<lparr>logged := logged kst @ kws @ [NoKeyVersions (kv_Name keyVaultKey)]\<rparr>)"
      using a by (rule ks)
    {
      assume nz: "limit \<noteq> 0"
      then have step: "processKey s L keyVaultKey st' =
          (Done, st'\<lparr>clock := Suc (clock st'),
                     logged := logged st' @ kws @ [NoKeyVersions (kv_Name keyVaultKey)]\<rparr>)"
        for st' :: "'b fetch_state"
        using a by (simp add: processKey_nonzero_limit ks [OF a])
      show "processKeys s L (keyVaultKey # kothers) kst =
                     processKeys s L kothers
                       (kst\<lparr>clock := Suc (clock kst),
                            logged := logged kst @ kws @ [NoKeyVersions (kv_Name keyVaultKey)]\<rparr>)"
        by (simp add: step)
    }
    {
      assume b: "limit \<noteq> 0 \<and> keys s = [keyVaultKey]"
      then have step: "processKey s L keyVaultKey st' =
          (Done, st'\<lparr>clock := Suc (clock st'),
                     logged := logged st' @ kws @ [NoKeyVersions (kv_Name keyVaultKey)]\<rparr>)"
        for st' :: "'b fetch_state"
        using a by (simp add: processKey_nonzero_limit ks [OF a])
      show "fst (GetKeys s L kw) =
              Returns (Some Map.empty, Some (getStatusMap [] KeysStatus), None)"
        using b by (simp add: GetKeys_def step init_state_def)
    }
  qed
qed

theorem trimVersionHistory_pinned_absent_is_empty_witness:
  "0 \<le> (2 :: int) \<and> is_int 2 \<and> ''v9'' \<noteq> []
   \<and> ''v9'' \<notin> vv_Version ` set [\<lparr>vv_Version = ''v1'', vv_Created = 10, vv_Enabled = True\<rparr>]
   \<and> trimVersionHistory [\<lparr>vv_Version = ''v1'', vv_Created = 10, vv_Enabled = True\<rparr>] 2 ''v9''
       = Returns []
   \<and> fst (GetCertificates (testProvider [object ''certA'' ''v9'' 2] []) testLibs emptyWorld)
       = Returns (Some Map.empty, Some (getStatusMap [] CertificatesStatus), None)
   \<and> fst (GetKeys (testProvider [] [object ''keyA'' ''v9'' 2]) testLibs emptyWorld)
       = Returns (Some Map.empty, Some (getStatusMap [] KeysStatus), None)"
proof -
  let ?h = "[\<lparr>vv_Version = ''v1'', vv_Created = 10, vv_Enabled = True\<rparr>]"
  have fc: "fetchCertificateVersionHistory (testProvider cs ks) testLibs ''certA'' = (Inr ?h, [])"
    for cs ks
    by (simp add: fetchCertificateVersionHistory_def testProvider_def testLibs_def
        isValidCertificateItem_def getObjectVersion_def Sort_def)
  have fk: "fetchKeyVersionHistory (testProvider cs ks) testLibs ''keyA'' = (Inr ?h, [])"
    for cs ks
    by (simp add: fetchKeyVersionHistory_def testProvider_def testLibs_def
        isValidKeyItem_def getObjectVersion_def Sort_def)
  have sel: "certificates (testProvider cs ks) = cs" "keys (testProvider cs ks) = ks" for cs ks
    by (simp_all add: testProvider_def)
  have hyps: "0 \<le> (2 :: int)" "is_int 2" "''v9'' \<noteq> []" "''v9'' \<notin> vv_Version ` set ?h"
    by (simp_all add: is_int_def)
  note certs = trimVersionHistory_pinned_absent_is_empty
    [OF hyps, of "object ''certA'' ''v9'' 2" "testProvider [object ''certA'' ''v9'' 2] []" testLibs
        "[]" "[]" "init_state emptyWorld" "[]" emptyWorld
        "object ''keyA'' ''v9'' 2" "[]" "init_state emptyWorld" "[]" emptyWorld]
  note ks = trimVersionHistory_pinned_absent_is_empty
    [OF hyps, of "object ''certA'' ''v9'' 2" "testProvider [] [object ''keyA'' ''v9'' 2]" testLibs
        "[]" "[]" "init_state emptyWorld" "[]" emptyWorld
        "object ''keyA'' ''v9'' 2" "[]" "init_state emptyWorld" "[]" emptyWorld]
  have pc: "kv_VersionHistoryLimit (object ''certA'' ''v9'' 2) = 2
      \<and> kv_Version (object ''certA'' ''v9'' 2) = ''v9''
      \<and> fetchCertificateVersionHistory (testProvider [object ''certA'' ''v9'' 2] []) testLibs
            (kv_Name (object ''certA'' ''v9'' 2)) = (Inr ?h, [])"
    using fc by (simp add: object_def)
  have pk: "kv_VersionHistoryLimit (object ''keyA'' ''v9'' 2) = 2
      \<and> kv_Version (object ''keyA'' ''v9'' 2) = ''v9''
      \<and> fetchKeyVersionHistory (testProvider [] [object ''keyA'' ''v9'' 2]) testLibs
            (kv_Name (object ''keyA'' ''v9'' 2)) = (Inr ?h, [])"
    using fk by (simp add: object_def)
  have nz: "(2 :: int) \<noteq> 0
      \<and> certificates (testProvider [object ''certA'' ''v9'' 2] []) = [object ''certA'' ''v9'' 2]"
    "(2 :: int) \<noteq> 0
      \<and> keys (testProvider [] [object ''keyA'' ''v9'' 2]) = [object ''keyA'' ''v9'' 2]"
    by (simp_all add: sel)
  from certs ks pc pk nz hyps show ?thesis by blast
qed

section \<open>Claims about disabled secrets and disabled versions\<close>

text \<open>
  C2, as amended. In the \<^verbatim>\<open>versionHistoryLimit == 0\<close> certificate path, when \<^verbatim>\<open>GetSecret\<close>
  fails with an error whose HTTP response error, if it has status 403, carries its raw
  response, the provider falls back to \<^verbatim>\<open>handleDisabledSecret\<close> exactly when the error is
  an HTTP response error with status 403 whose body decodes to JSON with the top-level
  error code "Forbidden" and the nested inner error code "SecretDisabled"; for every
  other such error the step fails with the wrapped error, and so does the whole
  \<^verbatim>\<open>GetCertificates\<close> call.
\<close>

theorem processCertificateVersion_disabled_secret_fallback:
  assumes "GetSecret s (kv_Name keyVaultCert) (kv_Version keyVaultCert) = Inl err"
    and "errorsAs err \<noteq> Some (StatusForbidden, None)"
  shows "((\<exists>azureError. errorsAs err = Some (StatusForbidden, Some (BodyJSON azureError))
             \<and> ae_Code azureError = ''Forbidden''
             \<and> ae_InnerErrorCode azureError = ''SecretDisabled'')
          \<longrightarrow> processCertificateVersion s L keyVaultCert startTime st
                = handleDisabledSecret s L keyVaultCert startTime st)
         \<and> (\<not> (\<exists>azureError. errorsAs err = Some (StatusForbidden, Some (BodyJSON azureError))
             \<and> ae_Code azureError = ''Forbidden''
             \<and> ae_InnerErrorCode azureError = ''SecretDisabled'')
          \<longrightarrow> processCertificateVersion s L keyVaultCert startTime st
                = (Failed (Errorf (''failed to get secret objectName:'' @ kv_Name keyVaultCert
                                     @ '', objectVersion:'' @ kv_Version keyVaultCert @ '', error: '')
                                  (ClientError err)), st)
              \<and> (kv_VersionHistoryLimit keyVaultCert = 0
                    \<and> certificates s = pre @ keyVaultCert # post
                    \<and> processCertificates s L pre (init_state w) = (Done, st1)
                  \<longrightarrow> fst (GetCertificates s L w)
                        = Returns (None, None,
                            Some (Errorf (''failed to get secret objectName:'' @ kv_Name keyVaultCert
                                            @ '', objectVersion:'' @ kv_Version keyVaultCert @ '', error: '')
                                         (ClientError err)))))"
proof -
  let ?sig = "\<exists>azureError. errorsAs err = Some (StatusForbidden, Some (BodyJSON azureError))
             \<and> ae_Code azureError = ''Forbidden''
             \<and> ae_InnerErrorCode azureError = ''SecretDisabled''"
  let ?e = "Errorf (''failed to get secret objectName:'' @ kv_Name keyVaultCert
                     @ '', objectVersion:'' @ kv_Version keyVaultCert @ '', error: '')
                   (ClientError err)"
  from isSecretDisabledError_returns [OF assms(2)]
  obtain disabled where d: "isSecretDisabledError err = Returns disabled" by blast
  have iff: "disabled \<longleftrightarrow> ?sig"
    using d isSecretDisabledError_True_iff [of err] by simp
  have fallback: "processCertificateVersion s L keyVaultCert t st'
      = handleDisabledSecret s L keyVaultCert t st'" if "?sig"
    for t and st' :: "'a list fetch_state"
    using that iff assms(1) d by (simp add: processCertificateVersion_def)
  have fails: "processCertificateVersion s L keyVaultCert t st' = (Failed ?e, st')" if "\<not> ?sig"
    for t and st' :: "'a list fetch_state"
    using that iff assms(1) d by (simp add: processCertificateVersion_def)
  show ?thesis
  proof (intro conjI impI)
    assume "?sig"
    then show "processCertificateVersion s L keyVaultCert startTime st
                = handleDisabledSecret s L keyVaultCert startTime st"
      by (rule fallback)
  next
    assume n: "\<not> ?sig"
    then show "processCertificateVersion s L keyVaultCert startTime st = (Failed ?e, st)"
      by (rule fails)
    assume a: "kv_VersionHistoryLimit keyVaultCert = 0
                    \<and> certificates s = pre @ keyVaultCert # post
                    \<and> processCertificates s L pre (init_state w) = (Done, st1)"
    then have "processCertificate s L keyVaultCert st1
        = (Failed ?e, st1\<lparr>clock := Suc (clock st1)\<rparr>)"
      by (simp add: processCertificate_zero_limit fails [OF n])
    with a have "processCertificates s L (certificates s) (init_state w)
        = (Failed ?e, st1\<lparr>clock := Suc (clock st1)\<rparr>)"
      using processCertificates_stops_at
        [of s L pre "init_state w" st1 keyVaultCert "Failed ?e" "st1\<lparr>clock := Suc (clock st1)\<rparr>" post]
      by simp
    then show "fst (GetCertificates s L w) = Returns (None, None, Some ?e)"
      by (simp add: GetCertificates_Failed)
  qed
qed

theorem processCertificateVersion_disabled_secret_fallback_witness:
  "processCertificateVersion (testProvider [object ''certDisabled'' [] 0] []) testLibs
      (object ''certDisabled'' [] 0) ''T'' (init_state emptyWorld)
     = handleDisabledSecret (testProvider [object ''certDisabled'' [] 0] []) testLibs
         (object ''certDisabled'' [] 0) ''T'' (init_state emptyWorld)
   \<and> fst (handleDisabledSecret (testProvider [object ''certDisabled'' [] 0] []) testLibs
         (object ''certDisabled'' [] 0) ''T'' (init_state (emptyWorld :: string list world))) = Done
   \<and> fst (GetCertificates (testProvider [object ''missing'' [] 0] []) testLibs emptyWorld)
     = Returns (None, None,
         Some (Errorf ''failed to get secret objectName:missing, objectVersion:, error: ''
                 (ClientError (OtherError ''secret not found''))))"
proof -
  let ?s = "testProvider [object ''certDisabled'' [] 0] []"
  let ?k = "object ''certDisabled'' [] 0"
  let ?s' = "testProvider [object ''missing'' [] 0] []"
  let ?k' = "object ''missing'' [] 0"
  let ?st = "init_state (emptyWorld :: string list world)"
  have g: "GetSecret ?s (kv_Name ?k) (kv_Version ?k) = Inl (ResponseError 403 (Some secretDisabledBody))"
    by (simp add: testProvider_def object_def)
  have g': "GetSecret ?s' (kv_Name ?k') (kv_Version ?k') = Inl (OtherError ''secret not found'')"
    by (simp add: testProvider_def object_def)
  have r: "errorsAs (ResponseError 403 (Some secretDisabledBody)) \<noteq> Some (StatusForbidden, None)"
    "errorsAs (OtherError ''secret not found'') \<noteq> Some (StatusForbidden, None)"
    by simp_all
  have sig: "\<exists>azureError. errorsAs (ResponseError 403 (Some secretDisabledBody))
                = Some (StatusForbidden, Some (BodyJSON azureError))
             \<and> ae_Code azureError = ''Forbidden''
             \<and> ae_InnerErrorCode azureError = ''SecretDisabled''"
    by (simp add: secretDisabledBody_def StatusForbidden_def)
  have nsig: "\<not> (\<exists>azureError. errorsAs (OtherError ''secret not found'')
                = Some (StatusForbidden, Some (BodyJSON azureError))
             \<and> ae_Code azureError = ''Forbidden''
             \<and> ae_InnerErrorCode azureError = ''SecretDisabled'')"
    by simp
  have pre: "kv_VersionHistoryLimit ?k' = 0 \<and> certificates ?s' = [] @ ?k' # []
      \<and> processCertificates ?s' testLibs [] ?st = (Done, ?st)"
    by (simp add: testProvider_def object_def)
  have msg: "''failed to get secret objectName:'' @ kv_Name ?k' @ '', objectVersion:''
               @ kv_Version ?k' @ '', error: ''
             = ''failed to get secret objectName:missing, objectVersion:, error: ''"
    by (simp add: object_def)
  have hd: "fst (handleDisabledSecret ?s testLibs ?k ''T'' ?st) = Done"
    by (simp add: handleDisabledSecret_def testProvider_def object_def
        isValidCertificateBundle_def Let_def)
  from processCertificateVersion_disabled_secret_fallback
         [OF g r(1), of testLibs "''T''" ?st "[]" "[]" emptyWorld ?st] sig
  have a: "processCertificateVersion ?s testLibs ?k ''T'' ?st
      = handleDisabledSecret ?s testLibs ?k ''T'' ?st" by blast
  from processCertificateVersion_disabled_secret_fallback
         [OF g' r(2), of testLibs "''T''" ?st "[]" "[]" emptyWorld ?st] nsig pre
  have b: "fst (GetCertificates ?s' testLibs emptyWorld)
      = Returns (None, None,
          Some (Errorf (''failed to get secret objectName:'' @ kv_Name ?k' @ '', objectVersion:''
               @ kv_Version ?k' @ '', error: '') (ClientError (OtherError ''secret not found''))))"
    by blast
  show ?thesis using a hd b unfolding msg by blast
qed

text \<open>
  C2 as stated fails: a 403 response whose body has the inner error code
  "SecretDisabled" under a top-level code other than "Forbidden" is not taken for a
  disabled secret; the step does not fall back and the call fails.
\<close>

theorem secret_disabled_without_forbidden_code_counterexample:
  "GetSecret (testProvider [object ''certOdd'' [] 0] []) ''certOdd'' []
     = Inl (ResponseError 403
         (Some (BodyJSON \<lparr>ae_Code = ''Unauthorized'', ae_Message = [],
                           ae_InnerErrorCode = ''SecretDisabled''\<rparr>)))
   \<and> errorsAs (ResponseError 403
         (Some (BodyJSON \<lparr>ae_Code = ''Unauthorized'', ae_Message = [],
                           ae_InnerErrorCode = ''SecretDisabled''\<rparr>)))
     = Some (403, Some (BodyJSON \<lparr>ae_Code = ''Unauthorized'', ae_Message = [],
                                    ae_InnerErrorCode = ''SecretDisabled''\<rparr>))
   \<and> processCertificateVersion (testProvider [object ''certOdd'' [] 0] []) testLibs
        (object ''certOdd'' [] 0) ''T'' (init_state (emptyWorld :: string list world))
     \<noteq> handleDisabledSecret (testProvider [object ''certOdd'' [] 0] []) testLibs
        (object ''certOdd'' [] 0) ''T'' (init_state emptyWorld)
   \<and> fst (GetCertificates (testProvider [object ''certOdd'' [] 0] []) testLibs emptyWorld)
     = Returns (None, None,
         Some (Errorf ''failed to get secret objectName:certOdd, objectVersion:, error: ''
                 (ClientError (ResponseError 403
                    (Some (BodyJSON \<lparr>ae_Code = ''Unauthorized'', ae_Message = [],
                                      ae_InnerErrorCode = ''SecretDisabled''\<rparr>))))))"
  by (simp add: GetCertificates_def processCertificate_def processCertificateVersion_def
      handleDisabledSecret_def isSecretDisabledError_def StatusForbidden_def
      testProvider_def oddDisabledBody_def object_def init_state_def Let_def)

text \<open>
  C1 at a failing input. The vault answers \<^verbatim>\<open>GetSecret\<close> for the configured certificate
  (no pinned version, \<^verbatim>\<open>versionHistoryLimit = 0\<close>) with a valid PEM bundle whose
  attributes say \<open>enabled = false\<close>. \<^verbatim>\<open>processCertificateVersion\<close> has no branch for a
  disabled bundle, unlike \<^verbatim>\<open>processKeyVersion\<close>: the certificate is put into the returned
  map under the map key with \<open>enabled = false\<close>, and the entry of that key in the shared
  store is not deleted.
\<close>

theorem GetCertificates_keeps_disabled_secret_bundle:
  "fst (GetCertificates (testProvider [object ''certOff'' [] 0] []) testLibs staleWorld)
     = Returns
         (Some [\<lparr>mk_Name = ''certOff'', mk_Version = ''v1'', mk_Enabled = False\<rparr> \<mapsto> [''c1'']],
          Some (getStatusMap [getStatusProperty ''certOff'' ''v1'' ''T+'' False] CertificatesStatus),
          None)
   \<and> w_sharedStore (snd (GetCertificates (testProvider [object ''certOff'' [] 0] []) testLibs staleWorld))
       ''default/kmp'' \<lparr>mk_Name = ''certOff'', mk_Version = ''v1'', mk_Enabled = False\<rparr>
     = Some [''stale'']"
  by (simp add: GetCertificates_def processCertificate_def processCertificateVersion_def
      getCertsFromSecretBundle_def blockStep_def isValidSecretBundle_def testSecret_def
      PEMContentType_def PKCS12ContentType_def sliceOf_def getObjectVersion_def
      testProvider_def testLibs_def staleWorld_def object_def init_state_def world_of_def Let_def)

end
